theory Spec2Isabelle
  imports Main "HOL-Library.Word"
begin

unbundle bit_operations_syntax

section \<open>Provably-fair backgammon verifier (pkg/verifier/verifier.go)\<close>

text \<open>
  The verifier recomputes the dice stream of a match report,
  HMAC-SHA256(serverSeed, combinedSeed || nonce_BE), and compares it with the recorded rolls.
  Go byte slices are lists of 8-bit words, Go strings are HOL strings (lists of 8-bit
  characters), \<open>uint32\<close> is \<open>32 word\<close>, \<open>int64\<close> is \<open>64 word\<close> read with \<open>sint\<close>.
\<close>

type_synonym byte = "8 word"
type_synonym bytes = "byte list"

subsection \<open>Go standard library: encoding/hex\<close>

text \<open>
  \<open>hex.DecodeString\<close> accepts the digits 0-9, a-f and A-F, two per byte, and fails on an
  odd length or on any other character. \<open>decodeHex\<close> of the verifier drops the kind of
  failure, so the model returns \<open>None\<close> for both.
\<close>

definition fromHexChar :: "char \<Rightarrow> byte option" where
  "fromHexChar c =
     (let n = (of_char c :: nat) in
      if 48 \<le> n \<and> n \<le> 57 then Some (of_nat (n - 48))
      else if 97 \<le> n \<and> n \<le> 102 then Some (of_nat (n - 87))
      else if 65 \<le> n \<and> n \<le> 70 then Some (of_nat (n - 55))
      else None)"

fun hex_DecodeString :: "string \<Rightarrow> bytes option" where
  "hex_DecodeString [] = Some []"
| "hex_DecodeString [p] = None"
| "hex_DecodeString (p # q # r) =
     (case fromHexChar p of
        None \<Rightarrow> None
      | Some a \<Rightarrow>
          (case fromHexChar q of
             None \<Rightarrow> None
           | Some b \<Rightarrow>
               (case hex_DecodeString r of
                  None \<Rightarrow> None
                | Some bs \<Rightarrow> Some ((push_bit 4 a OR b) # bs))))"

text \<open>\<open>hex.EncodeToString\<close>: two lower-case digits per byte, high nibble first.\<close>

definition hextable :: string where
  "hextable = ''0123456789abcdef''"

definition hex_EncodeToString :: "bytes \<Rightarrow> string" where
  "hex_EncodeToString bs =
     concat (map (\<lambda>b. [hextable ! unat (drop_bit 4 b), hextable ! unat (b AND 15)]) bs)"

subsection \<open>Go standard library: strconv.FormatInt in base 10, string comparison\<close>

text \<open>The digit table of strconv; base 10 uses its first ten entries.\<close>

definition digits :: string where
  "digits = ''0123456789abcdefghijklmnopqrstuvwxyz''"

function digits10 :: "nat \<Rightarrow> string" where
  "digits10 n =
     (if n < 10 then [digits ! n] else digits10 (n div 10) @ [digits ! (n mod 10)])"
  by pat_completeness auto
termination
  by (relation "measure id") auto

declare digits10.simps [simp del]

definition FormatInt :: "int \<Rightarrow> string" where
  "FormatInt i = (if i < 0 then CHR ''-'' # digits10 (nat (- i)) else digits10 (nat i))"

text \<open>Go compares strings byte by byte; a proper prefix is smaller.\<close>

fun str_less :: "string \<Rightarrow> string \<Rightarrow> bool" where
  "str_less [] [] = False"
| "str_less [] (y # ys) = True"
| "str_less (x # xs) [] = False"
| "str_less (x # xs) (y # ys) =
     ((of_char x :: nat) < of_char y \<or> (x = y \<and> str_less xs ys))"

subsection \<open>Go standard library: crypto/sha256 (FIPS 180-4)\<close>

text \<open>
  32-bit words of the hash are natural numbers below \<open>2 ^ 32\<close>; every addition is reduced
  modulo \<open>2 ^ 32\<close>. The round constants and the initial state are written in decimal.
\<close>

definition add32 :: "nat \<Rightarrow> nat \<Rightarrow> nat" where
  "add32 x y = (x + y) mod 4294967296"

definition rotr :: "nat \<Rightarrow> nat \<Rightarrow> nat" where
  "rotr n x = x div 2 ^ n + (x mod 2 ^ n) * 2 ^ (32 - n)"

definition shr :: "nat \<Rightarrow> nat \<Rightarrow> nat" where
  "shr n x = x div 2 ^ n"

text \<open>The complement of \<open>e\<close> in \<open>Ch\<close> is \<open>2 ^ 32 - 1 - e\<close>.\<close>

definition Ch :: "nat \<Rightarrow> nat \<Rightarrow> nat \<Rightarrow> nat" where
  "Ch e f g = (e AND f) XOR ((4294967295 - e) AND g)"

definition Maj :: "nat \<Rightarrow> nat \<Rightarrow> nat \<Rightarrow> nat" where
  "Maj a b c = (a AND b) XOR (a AND c) XOR (b AND c)"

definition bsig0 :: "nat \<Rightarrow> nat" where
  "bsig0 x = rotr 2 x XOR rotr 13 x XOR rotr 22 x"

definition bsig1 :: "nat \<Rightarrow> nat" where
  "bsig1 x = rotr 6 x XOR rotr 11 x XOR rotr 25 x"

definition ssig0 :: "nat \<Rightarrow> nat" where
  "ssig0 x = rotr 7 x XOR rotr 18 x XOR shr 3 x"

definition ssig1 :: "nat \<Rightarrow> nat" where
  "ssig1 x = rotr 17 x XOR rotr 19 x XOR shr 10 x"

definition K256 :: "nat list" where
  "K256 =
    [1116352408, 1899447441, 3049323471, 3921009573, 961987163, 1508970993, 2453635748,
     2870763221, 3624381080, 310598401, 607225278, 1426881987, 1925078388, 2162078206,
     2614888103, 3248222580, 3835390401, 4022224774, 264347078, 604807628, 770255983,
     1249150122, 1555081692, 1996064986, 2554220882, 2821834349, 2952996808, 3210313671,
     3336571891, 3584528711, 113926993, 338241895, 666307205, 773529912, 1294757372,
     1396182291, 1695183700, 1986661051, 2177026350, 2456956037, 2730485921, 2820302411,
     3259730800, 3345764771, 3516065817, 3600352804, 4094571909, 275423344, 430227734,
     506948616, 659060556, 883997877, 958139571, 1322822218, 1537002063, 1747873779,
     1955562222, 2024104815, 2227730452, 2361852424, 2428436474, 2756734187, 3204031479,
     3329325298]"

type_synonym sha_state = "nat \<times> nat \<times> nat \<times> nat \<times> nat \<times> nat \<times> nat \<times> nat"

definition H256 :: sha_state where
  "H256 = (1779033703, 3144134277, 1013904242, 2773480762,
           1359893119, 2600822924, 528734635, 1541459225)"

fun be_words :: "bytes \<Rightarrow> nat list" where
  "be_words (a # b # c # d # r) =
     (((unat a * 256 + unat b) * 256 + unat c) * 256 + unat d) # be_words r"
| "be_words _ = []"

definition be_bytes :: "nat \<Rightarrow> bytes" where
  "be_bytes w = [of_nat (w div 16777216), of_nat (w div 65536 mod 256),
                 of_nat (w div 256 mod 256), of_nat (w mod 256)]"

fun sha_round :: "sha_state \<Rightarrow> nat \<Rightarrow> nat \<Rightarrow> sha_state" where
  "sha_round (a, b, c, d, e, f, g, h) k w =
     (let t1 = add32 (add32 (add32 (add32 h (bsig1 e)) (Ch e f g)) k) w;
          t2 = add32 (bsig0 a) (Maj a b c)
      in (add32 t1 t2, a, b, c, add32 d t1, e, f, g))"

text \<open>
  The 64 rounds of one block. The list \<open>w\<close> holds the sixteen most recent words of the
  message schedule, oldest first; each round consumes its head and appends the next one.
\<close>

fun rounds :: "nat list \<Rightarrow> nat list \<Rightarrow> sha_state \<Rightarrow> sha_state" where
  "rounds [] w s = s"
| "rounds (k # ks) w s =
     rounds ks
       (tl w @ [add32 (add32 (add32 (ssig1 (w ! 14)) (w ! 9)) (ssig0 (w ! 1))) (w ! 0)])
       (sha_round s k (hd w))"

fun add_state :: "sha_state \<Rightarrow> sha_state \<Rightarrow> sha_state" where
  "add_state (a, b, c, d, e, f, g, h) (a', b', c', d', e', f', g', h') =
     (add32 a a', add32 b b', add32 c c', add32 d d',
      add32 e e', add32 f f', add32 g g', add32 h h')"

definition compress :: "sha_state \<Rightarrow> bytes \<Rightarrow> sha_state" where
  "compress h blk = add_state h (rounds K256 (be_words blk) h)"

function blocks64 :: "bytes \<Rightarrow> bytes list" where
  "blocks64 bs = (if length bs < 64 then [] else take 64 bs # blocks64 (drop 64 bs))"
  by pat_completeness auto
termination
  by (relation "measure length") auto

declare blocks64.simps [simp del]

definition be64_bytes :: "nat \<Rightarrow> bytes" where
  "be64_bytes n = map (\<lambda>i. of_nat (n div 256 ^ i mod 256)) [7, 6, 5, 4, 3, 2, 1, 0]"

definition pad :: "bytes \<Rightarrow> bytes" where
  "pad m = m @ [0x80] @ replicate ((119 - length m mod 64) mod 64) 0 @ be64_bytes (8 * length m)"

fun state_bytes :: "sha_state \<Rightarrow> bytes" where
  "state_bytes (a, b, c, d, e, f, g, h) =
     be_bytes a @ be_bytes b @ be_bytes c @ be_bytes d @
     be_bytes e @ be_bytes f @ be_bytes g @ be_bytes h"

definition sha256 :: "bytes \<Rightarrow> bytes" where
  "sha256 m = state_bytes (foldl compress H256 (blocks64 (pad m)))"

subsection \<open>Go standard library: crypto/hmac over SHA-256 (RFC 2104)\<close>

definition hmac_sha256 :: "bytes \<Rightarrow> bytes \<Rightarrow> bytes" where
  "hmac_sha256 key msg =
     (let k0 = (if 64 < length key then sha256 key else key);
          kp = k0 @ replicate (64 - length k0) 0
      in sha256 (map (\<lambda>b. b XOR 0x5c) kp @ sha256 (map (\<lambda>b. b XOR 0x36) kp @ msg)))"

subsection \<open>Reports and errors\<close>

record PlayerEntry =
  UID :: "64 word"
  ClientSeed :: string
  Source :: string

record Report =
  GameID :: string
  ServerSeed :: string
  ServerSeedHash :: string
  Rolls :: string
  Players :: "PlayerEntry list"

text \<open>
  The errors of the verifier, one constructor per message:
  \<^item> \<open>NotTwoPlayers\<close>: "report must contain exactly 2 players";
  \<^item> \<open>OddRolls\<close>: "report must contain exactly odds rolls";
  \<^item> \<open>NotValidHex name\<close>: "<name> is not valid hex";
  \<^item> \<open>ServerHashMismatch\<close>: "server_hash mismatch";
  \<^item> \<open>RollMismatch i d1 d2 a1 a2\<close>: "roll i mismatch: expected (d1,d2), but got(a1,a2)";
  \<^item> \<open>IndexOutOfRange\<close>: the run-time panic of a slice or string index out of range.
\<close>

datatype error =
    NotTwoPlayers
  | OddRolls
  | NotValidHex string
  | ServerHashMismatch
  | RollMismatch nat int int byte byte
  | IndexOutOfRange

text \<open>The error kinds of the specification's taxonomy.\<close>

datatype error_kind =
    StructuralViolation
  | InvalidEncoding
  | CommitmentMismatch
  | RollMismatchKind
  | RuntimePanic

fun kind :: "error \<Rightarrow> error_kind" where
  "kind NotTwoPlayers = StructuralViolation"
| "kind OddRolls = StructuralViolation"
| "kind (NotValidHex name) = InvalidEncoding"
| "kind ServerHashMismatch = CommitmentMismatch"
| "kind (RollMismatch i d1 d2 a1 a2) = RollMismatchKind"
| "kind IndexOutOfRange = RuntimePanic"

subsection \<open>decodeHex, sha256Hex, combinedSeed\<close>

definition decodeHex :: "string \<Rightarrow> string \<Rightarrow> error + bytes" where
  "decodeHex s name =
     (case hex_DecodeString s of None \<Rightarrow> Inl (NotValidHex name) | Some b \<Rightarrow> Inr b)"

definition sha256Hex :: "bytes \<Rightarrow> string" where
  "sha256Hex b = hex_EncodeToString (sha256 b)"

text \<open>
  \<open>combinedSeedBuf\<close> is the buffer \<open>buf\<close> that \<open>combinedSeed\<close> builds and then hashes;
  both of its comparisons are comparisons of the decimal strings.
\<close>

definition combinedSeedBuf :: "PlayerEntry \<Rightarrow> PlayerEntry \<Rightarrow> error + bytes" where
  "combinedSeedBuf a b =
     (let aUID = FormatInt (sint (UID a));
          bUID = FormatInt (sint (UID b));
          leftFirst = str_less aUID bUID;
          header = (if \<not> leftFirst then bUID @ '':'' @ aUID @ '':''
                    else aUID @ '':'' @ bUID @ '':'');
          (first, second) = (if str_less bUID aUID then (ClientSeed b, ClientSeed a)
                             else (ClientSeed a, ClientSeed b))
      in case decodeHex first ''clientSeed'' of
           Inl err \<Rightarrow> Inl err
         | Inr ha \<Rightarrow>
             (case decodeHex second ''clientSeed'' of
                Inl err \<Rightarrow> Inl err
              | Inr hb \<Rightarrow> Inr (map of_char header @ ha @ [58] @ hb)))"

definition combinedSeed :: "PlayerEntry \<Rightarrow> PlayerEntry \<Rightarrow> error + bytes" where
  "combinedSeed a b =
     (case combinedSeedBuf a b of Inl err \<Rightarrow> Inl err | Inr buf \<Rightarrow> Inr (sha256 buf))"

subsection \<open>hmacBlock, drawDie, rollDice\<close>

text \<open>\<open>copy(dst, src)\<close> overwrites the first \<open>min (len dst) (len src)\<close> bytes of \<open>dst\<close>.\<close>

definition copy_bytes :: "bytes \<Rightarrow> bytes \<Rightarrow> bytes" where
  "copy_bytes dst src = take (length dst) src @ drop (length src) dst"

text \<open>\<open>binary.BigEndian.PutUint32\<close>: the four bytes written, most significant first.\<close>

definition PutUint32 :: "32 word \<Rightarrow> bytes" where
  "PutUint32 v = [ucast (drop_bit 24 v), ucast (drop_bit 16 v), ucast (drop_bit 8 v), ucast v]"

definition hmacBlock :: "bytes \<Rightarrow> bytes \<Rightarrow> 32 word \<Rightarrow> bytes" where
  "hmacBlock key prefix nonce =
     (let msg0 = replicate (length prefix + 4) 0;
          msg1 = copy_bytes msg0 prefix;
          msg = take (length msg1 - 4) msg1 @ PutUint32 nonce
      in hmac_sha256 key msg)"

text \<open>
  \<open>drawDie\<close> repeats until it reads an accepted byte. The source gives no bound, so
  the model is a partial function: \<open>None\<close> is a run that never returns. The mutable
  \<open>nonce\<close>, \<open>pool\<close> and \<open>idx\<close> are passed in and returned with the die. \<open>idx\<close> starts at 0
  in the only caller and only grows, so it is a natural number.
\<close>

partial_function (option) drawDie ::
  "bytes \<Rightarrow> bytes \<Rightarrow> 32 word \<Rightarrow> bytes \<Rightarrow> nat \<Rightarrow> (error + int \<times> 32 word \<times> bytes \<times> nat) option"
where
  "drawDie key prefix nonce pool idx =
     (let (idx1, nonce1, pool1) =
            (if length pool \<le> idx then (0, nonce + 1, hmacBlock key prefix nonce)
             else (idx, nonce, pool))
      in if idx1 < length pool1 then
           (let v = pool1 ! idx1; idx2 = idx1 + 1
            in if v < 252 then Some (Inr (uint (v mod 6) + 1, nonce1, pool1, idx2))
               else drawDie key prefix nonce1 pool1 idx2)
         else Some (Inl IndexOutOfRange))"

definition rollDice ::
  "bytes \<Rightarrow> bytes \<Rightarrow> 32 word \<Rightarrow> (error + (int \<times> int) \<times> 32 word) option"
where
  "rollDice serverSeed combined nonce =
     (let pool = hmacBlock serverSeed combined nonce
      in case drawDie serverSeed combined (nonce + 1) pool 0 of
           None \<Rightarrow> None
         | Some (Inl err) \<Rightarrow> Some (Inl err)
         | Some (Inr (d1, nonce1, pool1, idx1)) \<Rightarrow>
             (case drawDie serverSeed combined nonce1 pool1 idx1 of
                None \<Rightarrow> None
              | Some (Inl err) \<Rightarrow> Some (Inl err)
              | Some (Inr (d2, nonce2, pool2, idx2)) \<Rightarrow> Some (Inr ((d1, d2), nonce2))))"

subsection \<open>Verify\<close>

text \<open>
  The comparison loop of \<open>Verify\<close>, from character offset \<open>i\<close> with the current nonce.
\<close>

function verifyRolls ::
  "bytes \<Rightarrow> bytes \<Rightarrow> string \<Rightarrow> nat \<Rightarrow> 32 word \<Rightarrow> (error + unit) option"
where
  "verifyRolls srvSeed combined rolls i nonce =
     (if i < length rolls then
        (if i + 1 < length rolls then
           (let r1 = (of_char (rolls ! i) :: byte);
                r2 = (of_char (rolls ! (i + 1)) :: byte)
            in case rollDice srvSeed combined nonce of
                 None \<Rightarrow> None
               | Some (Inl err) \<Rightarrow> Some (Inl err)
               | Some (Inr ((d1, d2), nonce')) \<Rightarrow>
                   (let e1 = (word_of_int d1 :: byte) + 48;
                        e2 = (word_of_int d2 :: byte) + 48
                    in if e1 \<noteq> r1 \<or> e2 \<noteq> r2
                       then Some (Inl (RollMismatch i d1 d2 (r1 - 48) (r2 - 48)))
                       else verifyRolls srvSeed combined rolls (i + 2) nonce'))
         else Some (Inl IndexOutOfRange))
      else Some (Inr ()))"
  by pat_completeness auto
termination
  by (relation "measure (\<lambda>(srvSeed, combined, rolls, i, nonce). length rolls - i)") auto

declare verifyRolls.simps [simp del]

definition Verify :: "Report \<Rightarrow> (error + unit) option" where
  "Verify rep =
     (if length (Players rep) \<noteq> 2 then Some (Inl NotTwoPlayers)
      else if length (Rolls rep) mod 2 \<noteq> 0 then Some (Inl OddRolls)
      else case decodeHex (ServerSeed rep) ''serverSeed'' of
             Inl err \<Rightarrow> Some (Inl err)
           | Inr srvSeed \<Rightarrow>
               if sha256Hex srvSeed \<noteq> ServerSeedHash rep then Some (Inl ServerHashMismatch)
               else (case combinedSeed (Players rep ! 0) (Players rep ! 1) of
                       Inl err \<Rightarrow> Some (Inl err)
                     | Inr combined \<Rightarrow> verifyRolls srvSeed combined (Rolls rep) 0 0))"

subsection \<open>Notions used to state the properties\<close>


text \<open>
  The seed mixer as the specification words it: the header ordered by the decimal strings,
  the seeds ordered by the numeric values of the UIDs.
\<close>

definition combinedSeedBuf_numeric :: "PlayerEntry \<Rightarrow> PlayerEntry \<Rightarrow> error + bytes" where
  "combinedSeedBuf_numeric a b =
     (let aUID = FormatInt (sint (UID a));
          bUID = FormatInt (sint (UID b));
          header = (if str_less aUID bUID then aUID @ '':'' @ bUID @ '':''
                    else bUID @ '':'' @ aUID @ '':'');
          (first, second) = (if sint (UID b) < sint (UID a) then (ClientSeed b, ClientSeed a)
                             else (ClientSeed a, ClientSeed b))
      in case decodeHex first ''clientSeed'' of
           Inl err \<Rightarrow> Inl err
         | Inr ha \<Rightarrow>
             (case decodeHex second ''clientSeed'' of
                Inl err \<Rightarrow> Inl err
              | Inr hb \<Rightarrow> Inr (map of_char header @ ha @ [58] @ hb)))"


text \<open>The bytes of \<open>m\<close> consecutive blocks of the stream, from nonce \<open>n\<close> on.\<close>

definition blocks :: "bytes \<Rightarrow> bytes \<Rightarrow> 32 word \<Rightarrow> nat \<Rightarrow> bytes" where
  "blocks key prefix n m = concat (map (\<lambda>j. hmacBlock key prefix (n + of_nat j)) [0..<m])"

text \<open>
  The first \<open>k\<close> rolls generated from a nonce, with the nonce after them; \<open>None\<close> when one
  of these rolls does not return.
\<close>

fun genRolls :: "bytes \<Rightarrow> bytes \<Rightarrow> nat \<Rightarrow> 32 word \<Rightarrow> ((int \<times> int) list \<times> 32 word) option" where
  "genRolls srvSeed combined 0 nonce = Some ([], nonce)"
| "genRolls srvSeed combined (Suc k) nonce =
     (case rollDice srvSeed combined nonce of
        Some (Inr (p, nonce')) \<Rightarrow>
          (case genRolls srvSeed combined k nonce' of
             Some (ps, nonce'') \<Rightarrow> Some (p # ps, nonce'')
           | None \<Rightarrow> None)
      | _ \<Rightarrow> None)"

text \<open>
  The pair reported at character offset \<open>i\<close> of the roll string, as the mismatch message
  prints it, and a generated pair in the same form.
\<close>

definition reportedPair :: "string \<Rightarrow> nat \<Rightarrow> byte \<times> byte" where
  "reportedPair rolls i = (of_char (rolls ! i) - 48, of_char (rolls ! (i + 1)) - 48)"

definition pairBytes :: "int \<times> int \<Rightarrow> byte \<times> byte" where
  "pairBytes p = (word_of_int (fst p), word_of_int (snd p))"

text \<open>
  The roll comparator on a list of generated pairs: from character offset \<open>i\<close>, the first
  reported pair that differs from the generated one gives the mismatch, none gives success.
\<close>

fun compareRolls :: "string \<Rightarrow> nat \<Rightarrow> (int \<times> int) list \<Rightarrow> error + unit" where
  "compareRolls rolls i [] = Inr ()"
| "compareRolls rolls i (p # ps) =
     (if reportedPair rolls i \<noteq> pairBytes p
      then Inl (RollMismatch i (fst p) (snd p)
             (fst (reportedPair rolls i)) (snd (reportedPair rolls i)))
      else compareRolls rolls (i + 2) ps)"

text \<open>
  A condition on the block stream under which \<open>k\<close> rolls return: each run of \<open>m + 1\<close>
  blocks that starts at one of the first \<open>k * (m + 1)\<close> nonces holds two accepted bytes.
\<close>

definition streamAccepts :: "bytes \<Rightarrow> bytes \<Rightarrow> nat \<Rightarrow> nat \<Rightarrow> bool" where
  "streamAccepts key prefix m k \<longleftrightarrow>
     (\<forall>j < k * Suc m.
        2 \<le> length (filter (\<lambda>v. v < 252) (blocks key prefix (of_nat j) (Suc m))))"

text \<open>Two reports that differ at most in the \<open>source\<close> fields of their players.\<close>

definition sameExceptSource :: "Report \<Rightarrow> Report \<Rightarrow> bool" where
  "sameExceptSource r r' \<longleftrightarrow>
     GameID r = GameID r' \<and> ServerSeed r = ServerSeed r' \<and>
     ServerSeedHash r = ServerSeedHash r' \<and> Rolls r = Rolls r' \<and>
     map UID (Players r) = map UID (Players r') \<and>
     map ClientSeed (Players r) = map ClientSeed (Players r')"

text \<open>The number a decimal string denotes; it inverts \<open>digits10\<close>.\<close>

fun decimal_value :: "string \<Rightarrow> nat" where
  "decimal_value s = foldl (\<lambda>acc c. acc * 10 + (of_char c - 48)) 0 s"

text \<open>What a returning draw satisfies: the die comes from the accepted byte just read.\<close>

definition draw_ok :: "error + int \<times> 32 word \<times> bytes \<times> nat \<Rightarrow> bool" where
  "draw_ok y \<longleftrightarrow>
     (\<exists>d nonce' pool' idx'. y = Inr (d, nonce', pool', idx') \<and> 0 < idx' \<and> idx' \<le> length pool' \<and>
        pool' ! (idx' - 1) < 252 \<and> d = uint (pool' ! (idx' - 1) mod 6) + 1)"

text \<open>The number that a byte string denotes, most significant byte first.\<close>

definition be_value :: "bytes \<Rightarrow> nat" where
  "be_value bs = foldl (\<lambda>acc b. acc * 256 + unat b) 0 bs"

text \<open>
  The mixer's buffer for a fixed order: the UIDs of \<open>l\<close> and \<open>r\<close> in the header, then the
  seed of \<open>l\<close>, a colon and the seed of \<open>r\<close>.
\<close>

definition mixLeftRight :: "PlayerEntry \<Rightarrow> PlayerEntry \<Rightarrow> error + bytes" where
  "mixLeftRight l r =
     (case decodeHex (ClientSeed l) ''clientSeed'' of
        Inl err \<Rightarrow> Inl err
      | Inr hl \<Rightarrow>
          (case decodeHex (ClientSeed r) ''clientSeed'' of
             Inl err \<Rightarrow> Inl err
           | Inr hr \<Rightarrow>
               Inr (map of_char (FormatInt (sint (UID l)) @ '':'' @ FormatInt (sint (UID r)) @ '':'')
                    @ hl @ [58] @ hr)))"

subsection \<open>A worked report\<close>

text \<open>
  A report over the server seed \<open>00 01 .. 0f\<close> and two players with UIDs 9 and 10. Its
  commitment, combined seed and first two rolls are recomputed below.
\<close>

definition example_seed :: bytes where
  "example_seed = [0, 1, 2, 3, 4, 5, 6, 7, 8, 9, 10, 11, 12, 13, 14, 15]"

definition example_combined :: bytes where
  "example_combined =
    [24, 172, 188, 116, 142, 14, 164, 40, 175, 7, 228, 8, 41, 170, 114, 97, 45, 189, 174, 141,
    76, 71, 47, 144, 219, 98, 200, 123, 29, 26, 48, 187]"

definition player_a :: PlayerEntry where
  "player_a = \<lparr>UID = 9, ClientSeed = ''00112233445566778899aabbccddeeff'', Source = ''player''\<rparr>"

definition player_b :: PlayerEntry where
  "player_b = \<lparr>UID = 10, ClientSeed = ''0f1e2d3c4b5a69788796a5b4c3d2e1f0'', Source = ''fallback''\<rparr>"

definition example_report :: Report where
  "example_report =
     \<lparr>GameID = ''example'',
      ServerSeed = ''000102030405060708090a0b0c0d0e0f'',
      ServerSeedHash = ''be45cb2605bf36bebde684841a28f0fd43c69850a3dce5fedba69928ee3a8991'',
      Rolls = ''2122'',
      Players = [player_a, player_b]\<rparr>"

section \<open>Auxiliary facts\<close>

subsection \<open>Lengths, hex decoding, string order\<close>

lemma length_be_bytes: "length (be_bytes w) = 4"
  by (simp add: be_bytes_def)

lemma length_state_bytes: "length (state_bytes s) = 32"
  by (cases s rule: state_bytes.cases) (simp add: length_be_bytes)

lemma length_sha256: "length (sha256 m) = 32"
  by (simp add: sha256_def length_state_bytes)

lemma length_hmac_sha256: "length (hmac_sha256 key msg) = 32"
  by (simp add: hmac_sha256_def Let_def length_sha256)

lemma length_hmacBlock: "length (hmacBlock key prefix nonce) = 32"
  by (simp add: hmacBlock_def Let_def length_hmac_sha256)

lemma hmacBlock_msg:
  "take (length (copy_bytes (replicate (length prefix + 4) 0) prefix) - 4)
     (copy_bytes (replicate (length prefix + 4) 0) prefix) = prefix"
  by (simp add: copy_bytes_def)

lemma hmacBlock_eq: "hmacBlock key prefix nonce = hmac_sha256 key (prefix @ PutUint32 nonce)"
  by (simp add: hmacBlock_def Let_def hmacBlock_msg)








lemma str_less_irrefl: "\<not> str_less s s"
  by (induction s) auto

lemma str_less_total: "s \<noteq> t \<Longrightarrow> str_less s t \<longleftrightarrow> \<not> str_less t s"
proof (induction s t rule: str_less.induct)
  case (4 x xs y ys)
  show ?case
  proof (cases "x = y")
    case True
    with 4 show ?thesis by simp
  next
    case False
    then have "(of_char x :: nat) < of_char y \<or> (of_char y :: nat) < of_char x"
      by (metis linorder_less_linear of_char_eq_iff)
    then show ?thesis using False by auto
  qed
qed simp_all

subsection \<open>Decimal rendering is injective\<close>

lemma digits_nth: "n < 10 \<Longrightarrow> (of_char (digits ! n) :: nat) = 48 + n"
proof -
  assume "n < 10"
  then have "n \<in> {0, 1, 2, 3, 4, 5, 6, 7, 8, 9}" by auto
  then show ?thesis
    unfolding digits_def by (elim insertE emptyE) simp_all
qed

lemma decimal_value_digits10: "decimal_value (digits10 n) = n"
proof (induction n rule: digits10.induct)
  case (1 n)
  show ?case
  proof (cases "n < 10")
    case True
    then show ?thesis
      by (subst digits10.simps) (simp add: digits_nth)
  next
    case False
    then have "decimal_value (digits10 (n div 10)) = n div 10"
      using 1 by simp
    then show ?thesis
      using False by (subst digits10.simps) (simp add: digits_nth)
  qed
qed

lemma digits10_inj: "digits10 n = digits10 m \<Longrightarrow> n = m"
  by (metis decimal_value_digits10)

lemma digits10_chars: "c \<in> set (digits10 n) \<Longrightarrow> 48 \<le> (of_char c :: nat)"
proof (induction n rule: digits10.induct)
  case (1 n)
  show ?case
  proof (cases "n < 10")
    case True
    with 1(2) show ?thesis
      by (subst (asm) digits10.simps) (simp add: digits_nth)
  next
    case False
    with 1 show ?thesis
      by (subst (asm) (2) digits10.simps) (auto simp: digits_nth)
  qed
qed

lemma digits10_not_Nil: "digits10 n \<noteq> []"
  by (subst digits10.simps) simp

lemma digits10_no_minus: "digits10 n \<noteq> CHR ''-'' # s"
proof
  assume "digits10 n = CHR ''-'' # s"
  then have "CHR ''-'' \<in> set (digits10 n)" by simp
  then have "48 \<le> (of_char CHR ''-'' :: nat)" by (rule digits10_chars)
  then show False by simp
qed

lemma FormatInt_inj: "FormatInt i = FormatInt j \<Longrightarrow> i = j"
  unfolding FormatInt_def
  by (auto split: if_splits dest: digits10_inj simp: digits10_no_minus digits10_no_minus [THEN not_sym])

lemma FormatInt_sint_inj:
  "FormatInt (sint (u :: 64 word)) = FormatInt (sint (v :: 64 word)) \<Longrightarrow> u = v"
  by (drule FormatInt_inj) (rule signed_word_eqI)

subsection \<open>One step of drawDie\<close>

lemma hmacBlock_not_Nil: "hmacBlock key prefix nonce \<noteq> []"
  using length_hmacBlock [of key prefix nonce] by auto

lemma drawDie_accept:
  "idx < length pool \<Longrightarrow> pool ! idx < 252 \<Longrightarrow>
   drawDie key prefix nonce pool idx = Some (Inr (uint (pool ! idx mod 6) + 1, nonce, pool, idx + 1))"
  by (subst drawDie.simps) simp

lemma drawDie_reject:
  "idx < length pool \<Longrightarrow> \<not> pool ! idx < 252 \<Longrightarrow>
   drawDie key prefix nonce pool idx = drawDie key prefix nonce pool (idx + 1)"
  by (subst drawDie.simps) simp

lemma drawDie_refill:
  "length pool \<le> idx \<Longrightarrow>
   drawDie key prefix nonce pool idx = drawDie key prefix (nonce + 1) (hmacBlock key prefix nonce) 0"
  by (subst drawDie.simps, subst (2) drawDie.simps) (simp add: hmacBlock_not_Nil)

lemma drawDie_result:
  assumes "drawDie key prefix nonce pool idx = Some y"
  shows "draw_ok y"
proof (rule drawDie.raw_induct [where P = "\<lambda>_ _ _ _ _ y. draw_ok y", OF _ assms])
  fix f :: "bytes \<Rightarrow> bytes \<Rightarrow> 32 word \<Rightarrow> bytes \<Rightarrow> nat \<Rightarrow> (error + int \<times> 32 word \<times> bytes \<times> nat) option"
  fix key prefix nonce pool idx y
  assume IH: "\<And>key prefix nonce pool idx y. f key prefix nonce pool idx = Some y \<Longrightarrow> draw_ok y"
  assume body: "(let (idx1, nonce1, pool1) =
            if length pool \<le> idx
            then (0, nonce + 1, hmacBlock key prefix nonce)
            else (idx, nonce, pool)
      in if idx1 < length pool1
         then let v = pool1 ! idx1; idx2 = idx1 + 1
              in if v < 252
                 then Some (Inr (uint (v mod 6) + 1, nonce1, pool1, idx2))
                 else f key prefix nonce1 pool1 idx2
         else Some (Inl IndexOutOfRange)) = Some y"
  show "draw_ok y"
  proof (cases "length pool \<le> idx")
    case True
    show ?thesis
    proof (cases "hmacBlock key prefix nonce ! 0 < 252")
      case True
      with body \<open>length pool \<le> idx\<close> show ?thesis
        by (auto simp: hmacBlock_not_Nil length_hmacBlock draw_ok_def)
    next
      case False
      with body \<open>length pool \<le> idx\<close>
      have "f key prefix (nonce + 1) (hmacBlock key prefix nonce) 1 = Some y"
        by (simp add: hmacBlock_not_Nil)
      then show ?thesis by (rule IH)
    qed
  next
    case False
    show ?thesis
    proof (cases "pool ! idx < 252")
      case True
      with body \<open>\<not> length pool \<le> idx\<close> show ?thesis
        by (auto simp: draw_ok_def)
    next
      case False
      with body \<open>\<not> length pool \<le> idx\<close>
      have "f key prefix nonce pool (idx + 1) = Some y"
        by simp
      then show ?thesis by (rule IH)
    qed
  qed
qed

lemma drawDie_no_panic: "drawDie key prefix nonce pool idx \<noteq> Some (Inl err)"
  using drawDie_result [of key prefix nonce pool idx "Inl err"] by (auto simp: draw_ok_def)

lemma unat_mod6: "unat ((v :: byte) mod 6) = unat v mod 6"
  by (simp only: unat_mod_distrib) simp

lemma face_eq: "uint ((v :: byte) mod 6) + 1 = int (unat v mod 6) + 1"
proof -
  have "uint (v mod 6) = int (unat (v mod 6))" by (rule uint_nat)
  then show ?thesis by (simp only: unat_mod6)
qed

lemma face_range: "1 \<le> uint ((v :: byte) mod 6) + 1 \<and> uint (v mod 6) + 1 \<le> 6"
proof -
  have "unat v mod 6 < 6" by simp
  then show ?thesis
    unfolding face_eq by linarith
qed

subsection \<open>The block stream\<close>

lemma blocks_0: "blocks key prefix n 0 = []"
  by (simp add: blocks_def)

lemma blocks_Suc:
  "blocks key prefix n (Suc m) = hmacBlock key prefix n @ blocks key prefix (n + 1) m"
proof -
  have "[0..<Suc m] = 0 # map Suc [0..<m]"
    by (simp add: upt_conv_Cons map_Suc_upt del: upt_Suc)
  then show ?thesis
    by (simp add: blocks_def comp_def add.assoc del: upt_Suc)
qed

lemma drawDie_stream_pool:
  assumes refill: "\<And>v vs. 0 < m \<Longrightarrow>
      filter (\<lambda>v. v < 252) (hmacBlock key prefix nonce @ blocks key prefix (nonce + 1) (m - 1)) = v # vs \<Longrightarrow>
      \<exists>t nonce' pool' idx'. t \<le> m - 1 \<and> nonce' = nonce + 1 + of_nat t \<and>
        drawDie key prefix (nonce + 1) (hmacBlock key prefix nonce) 0 =
          Some (Inr (uint (v mod 6) + 1, nonce', pool', idx')) \<and>
        filter (\<lambda>v. v < 252) (drop idx' pool' @ blocks key prefix nonce' (m - 1 - t)) = vs"
  shows "filter (\<lambda>v. v < 252) (drop idx pool @ blocks key prefix nonce m) = v # vs \<Longrightarrow>
      \<exists>t nonce' pool' idx'. t \<le> m \<and> nonce' = nonce + of_nat t \<and>
        drawDie key prefix nonce pool idx = Some (Inr (uint (v mod 6) + 1, nonce', pool', idx')) \<and>
        filter (\<lambda>v. v < 252) (drop idx' pool' @ blocks key prefix nonce' (m - t)) = vs"
proof (induction "length pool - idx" arbitrary: idx)
  case 0
  then have full: "length pool \<le> idx" by simp
  with 0(2) have f: "filter (\<lambda>v. v < 252) (blocks key prefix nonce m) = v # vs"
    by simp
  have "m \<noteq> 0"
  proof
    assume "m = 0"
    with f show False by (simp add: blocks_0)
  qed
  then obtain m' where m: "m = Suc m'"
    by (cases m) auto
  from f have "filter (\<lambda>v. v < 252)
      (hmacBlock key prefix nonce @ blocks key prefix (nonce + 1) (m - 1)) = v # vs"
    by (simp add: m blocks_Suc)
  with refill [of v vs] m obtain t nonce' pool' idx' where
    t: "t \<le> m - 1" "nonce' = nonce + 1 + of_nat t"
      "drawDie key prefix (nonce + 1) (hmacBlock key prefix nonce) 0 =
          Some (Inr (uint (v mod 6) + 1, nonce', pool', idx'))"
      "filter (\<lambda>v. v < 252) (drop idx' pool' @ blocks key prefix nonce' (m - 1 - t)) = vs"
    by auto
  have "Suc t \<le> m" using t(1) m by simp
  moreover have "nonce' = nonce + of_nat (Suc t)" using t(2) by simp
  moreover have "drawDie key prefix nonce pool idx =
      Some (Inr (uint (v mod 6) + 1, nonce', pool', idx'))"
    using drawDie_refill [OF full] t(3) by simp
  moreover have "filter (\<lambda>v. v < 252) (drop idx' pool' @ blocks key prefix nonce' (m - Suc t)) = vs"
    using t(4) by simp
  ultimately show ?case by blast
next
  case (Suc k)
  then have lt: "idx < length pool" by simp
  then have d: "drop idx pool = pool ! idx # drop (Suc idx) pool"
    by (simp add: Cons_nth_drop_Suc)
  show ?case
  proof (cases "pool ! idx < 252")
    case True
    with Suc(3) d have "v = pool ! idx"
      and "filter (\<lambda>v. v < 252) (drop (idx + 1) pool @ blocks key prefix nonce (m - 0)) = vs"
      by simp_all
    moreover have "drawDie key prefix nonce pool idx =
        Some (Inr (uint (pool ! idx mod 6) + 1, nonce, pool, idx + 1))"
      using lt True by (rule drawDie_accept)
    ultimately have "0 \<le> m \<and> nonce = nonce + of_nat 0 \<and>
        drawDie key prefix nonce pool idx = Some (Inr (uint (v mod 6) + 1, nonce, pool, idx + 1)) \<and>
        filter (\<lambda>v. v < 252) (drop (idx + 1) pool @ blocks key prefix nonce (m - 0)) = vs"
      by simp
    then show ?thesis by blast
  next
    case False
    with Suc(3) d have "filter (\<lambda>v. v < 252) (drop (Suc idx) pool @ blocks key prefix nonce m) = v # vs"
      by simp
    moreover have "k = length pool - Suc idx" using Suc(2) by simp
    ultimately have "\<exists>t nonce' pool' idx'. t \<le> m \<and> nonce' = nonce + of_nat t \<and>
        drawDie key prefix nonce pool (Suc idx) = Some (Inr (uint (v mod 6) + 1, nonce', pool', idx')) \<and>
        filter (\<lambda>v. v < 252) (drop idx' pool' @ blocks key prefix nonce' (m - t)) = vs"
      by (rule Suc(1) [rotated])
    then show ?thesis
      using drawDie_reject [OF lt False, of key prefix nonce] by simp
  qed
qed

lemma drawDie_stream:
  "filter (\<lambda>v. v < 252) (drop idx pool @ blocks key prefix nonce m) = v # vs \<Longrightarrow>
   \<exists>t nonce' pool' idx'. t \<le> m \<and> nonce' = nonce + of_nat t \<and>
     drawDie key prefix nonce pool idx = Some (Inr (uint (v mod 6) + 1, nonce', pool', idx')) \<and>
     filter (\<lambda>v. v < 252) (drop idx' pool' @ blocks key prefix nonce' (m - t)) = vs"
proof (induction m arbitrary: nonce pool idx v vs)
  case 0
  show ?case
    by (rule drawDie_stream_pool [OF _ 0]) simp
next
  case (Suc m)
  show ?case
  proof (rule drawDie_stream_pool [OF _ Suc(2)])
    fix v' vs'
    assume "filter (\<lambda>v. v < 252)
        (hmacBlock key prefix nonce @ blocks key prefix (nonce + 1) (Suc m - 1)) = v' # vs'"
    then have "filter (\<lambda>v. v < 252)
        (drop 0 (hmacBlock key prefix nonce) @ blocks key prefix (nonce + 1) m) = v' # vs'"
      by simp
    from Suc(1) [OF this]
    show "\<exists>t nonce' pool' idx'. t \<le> Suc m - 1 \<and> nonce' = nonce + 1 + of_nat t \<and>
        drawDie key prefix (nonce + 1) (hmacBlock key prefix nonce) 0 =
          Some (Inr (uint (v' mod 6) + 1, nonce', pool', idx')) \<and>
        filter (\<lambda>v. v < 252) (drop idx' pool' @ blocks key prefix nonce' (Suc m - 1 - t)) = vs'"
      by simp
  qed
qed

lemma rollDice_stream:
  assumes "filter (\<lambda>v. v < 252) (blocks key prefix nonce (Suc m)) = v1 # v2 # vs"
  shows "\<exists>t \<le> m. rollDice key prefix nonce =
     Some (Inr ((uint (v1 mod 6) + 1, uint (v2 mod 6) + 1), nonce + 1 + of_nat t))"
proof -
  from assms have "filter (\<lambda>v. v < 252)
      (drop 0 (hmacBlock key prefix nonce) @ blocks key prefix (nonce + 1) m) = v1 # v2 # vs"
    by (simp add: blocks_Suc)
  from drawDie_stream [OF this] obtain t1 nonce1 pool1 idx1 where
    1: "t1 \<le> m" "nonce1 = nonce + 1 + of_nat t1"
      "drawDie key prefix (nonce + 1) (hmacBlock key prefix nonce) 0 =
         Some (Inr (uint (v1 mod 6) + 1, nonce1, pool1, idx1))"
      "filter (\<lambda>v. v < 252) (drop idx1 pool1 @ blocks key prefix nonce1 (m - t1)) = v2 # vs"
    by blast
  from drawDie_stream [OF 1(4)] obtain t2 nonce2 pool2 idx2 where
    2: "t2 \<le> m - t1" "nonce2 = nonce1 + of_nat t2"
      "drawDie key prefix nonce1 pool1 idx1 = Some (Inr (uint (v2 mod 6) + 1, nonce2, pool2, idx2))"
    by blast
  have "rollDice key prefix nonce =
      Some (Inr ((uint (v1 mod 6) + 1, uint (v2 mod 6) + 1), nonce + 1 + of_nat (t1 + t2)))"
    using 1(2,3) 2(2,3) by (simp add: rollDice_def)
  moreover have "t1 + t2 \<le> m" using 1(1) 2(1) by simp
  ultimately show ?thesis by blast
qed

subsection \<open>The comparison loop\<close>

lemma rollDice_no_panic: "rollDice srvSeed combined nonce \<noteq> Some (Inl err)"
  by (auto simp: rollDice_def Let_def drawDie_no_panic split: option.splits sum.splits)

lemma compare_eq:
  "((a :: byte) + 48 \<noteq> r1 \<or> (b :: byte) + 48 \<noteq> r2) \<longleftrightarrow> (r1 - 48, r2 - 48) \<noteq> (a, b)"
  by auto

lemma verifyRolls_done: "length rolls \<le> i \<Longrightarrow> verifyRolls srvSeed combined rolls i nonce = Some (Inr ())"
  by (subst verifyRolls.simps) simp

lemma verifyRolls_step:
  assumes "i + 1 < length rolls"
  shows "verifyRolls srvSeed combined rolls i nonce =
     (case rollDice srvSeed combined nonce of
        None \<Rightarrow> None
      | Some (Inl err) \<Rightarrow> Some (Inl err)
      | Some (Inr (p, nonce')) \<Rightarrow>
          if reportedPair rolls i \<noteq> pairBytes p
          then Some (Inl (RollMismatch i (fst p) (snd p)
                 (fst (reportedPair rolls i)) (snd (reportedPair rolls i))))
          else verifyRolls srvSeed combined rolls (i + 2) nonce')"
    (is "_ = ?rhs")
proof -
  have cond: "\<And>d1 d2. ((word_of_int d1 :: byte) + 48 \<noteq> of_char (rolls ! i) \<or>
        (word_of_int d2 :: byte) + 48 \<noteq> of_char (rolls ! (i + 1))) \<longleftrightarrow>
      reportedPair rolls i \<noteq> pairBytes (d1, d2)"
    unfolding reportedPair_def pairBytes_def fst_conv snd_conv by (rule compare_eq)
  have f: "fst (reportedPair rolls i) = of_char (rolls ! i) - 48"
    and s: "snd (reportedPair rolls i) = of_char (rolls ! (i + 1)) - 48"
    by (simp_all add: reportedPair_def)
  have "verifyRolls srvSeed combined rolls i nonce =
     (case rollDice srvSeed combined nonce of
        None \<Rightarrow> None
      | Some (Inl err) \<Rightarrow> Some (Inl err)
      | Some (Inr ((d1, d2), nonce')) \<Rightarrow>
          if (word_of_int d1 :: byte) + 48 \<noteq> of_char (rolls ! i) \<or>
             (word_of_int d2 :: byte) + 48 \<noteq> of_char (rolls ! (i + 1))
          then Some (Inl (RollMismatch i d1 d2
                 (of_char (rolls ! i) - 48) (of_char (rolls ! (i + 1)) - 48)))
          else verifyRolls srvSeed combined rolls (i + 2) nonce')"
    using assms
    by (subst verifyRolls.simps) (simp add: Let_def split: option.splits sum.splits prod.splits)
  also have "\<dots> = ?rhs"
    unfolding cond f s by (simp split: option.splits sum.splits prod.splits)
  finally show ?thesis .
qed

lemma verifyRolls_ok_iff:
  "i + 2 * m = length rolls \<Longrightarrow>
   verifyRolls srvSeed combined rolls i nonce = Some (Inr ()) \<longleftrightarrow>
     (\<exists>ps nn. genRolls srvSeed combined m nonce = Some (ps, nn) \<and>
        (\<forall>k<m. reportedPair rolls (i + 2 * k) = pairBytes (ps ! k)))"
proof (induction m arbitrary: i nonce)
  case 0
  then show ?case by (simp add: verifyRolls_done)
next
  case (Suc m)
  then have lt: "i + 1 < length rolls" by simp
  show ?case
  proof (cases "rollDice srvSeed combined nonce")
    case None
    then show ?thesis by (simp add: verifyRolls_step [OF lt])
  next
    case (Some y)
    show ?thesis
    proof (cases y)
      case (Inl err)
      with Some show ?thesis by (simp add: verifyRolls_step [OF lt])
    next
      case (Inr pn)
      obtain p nonce' where pn: "pn = (p, nonce')" by (cases pn)
      show ?thesis
      proof (cases "reportedPair rolls i = pairBytes p")
        case False
        have "verifyRolls srvSeed combined rolls i nonce \<noteq> Some (Inr ())"
          using Some Inr pn False by (simp add: verifyRolls_step [OF lt])
        moreover have "\<not> (\<exists>ps nn. genRolls srvSeed combined (Suc m) nonce = Some (ps, nn) \<and>
            (\<forall>k<Suc m. reportedPair rolls (i + 2 * k) = pairBytes (ps ! k)))"
        proof
          assume "\<exists>ps nn. genRolls srvSeed combined (Suc m) nonce = Some (ps, nn) \<and>
            (\<forall>k<Suc m. reportedPair rolls (i + 2 * k) = pairBytes (ps ! k))"
          then obtain ps nn where g: "genRolls srvSeed combined (Suc m) nonce = Some (ps, nn)"
            and a: "\<forall>k<Suc m. reportedPair rolls (i + 2 * k) = pairBytes (ps ! k)" by blast
          from g Some Inr pn obtain ps' where "ps = p # ps'"
            by (auto split: option.splits)
          with a [rule_format, of 0] False show False by simp
        qed
        ultimately show ?thesis by simp
      next
        case True
        have step: "verifyRolls srvSeed combined rolls i nonce =
            verifyRolls srvSeed combined rolls (i + 2) nonce'"
          using Some Inr pn True by (simp add: verifyRolls_step [OF lt])
        have IH: "verifyRolls srvSeed combined rolls (i + 2) nonce' = Some (Inr ()) \<longleftrightarrow>
            (\<exists>ps nn. genRolls srvSeed combined m nonce' = Some (ps, nn) \<and>
               (\<forall>k<m. reportedPair rolls (i + 2 + 2 * k) = pairBytes (ps ! k)))"
          using Suc.prems by (intro Suc.IH) simp
        have "(\<exists>ps nn. genRolls srvSeed combined (Suc m) nonce = Some (ps, nn) \<and>
               (\<forall>k<Suc m. reportedPair rolls (i + 2 * k) = pairBytes (ps ! k))) \<longleftrightarrow>
            (\<exists>ps nn. genRolls srvSeed combined m nonce' = Some (ps, nn) \<and>
               (\<forall>k<m. reportedPair rolls (i + 2 + 2 * k) = pairBytes (ps ! k)))"
          (is "?L \<longleftrightarrow> ?R")
        proof
          assume ?L
          then obtain ps nn where g: "genRolls srvSeed combined (Suc m) nonce = Some (ps, nn)"
            and a: "\<forall>k<Suc m. reportedPair rolls (i + 2 * k) = pairBytes (ps ! k)" by blast
          from g Some Inr pn obtain ps' where ps: "ps = p # ps'"
            and g': "genRolls srvSeed combined m nonce' = Some (ps', nn)"
            by (auto split: option.splits)
          have "\<forall>k<m. reportedPair rolls (i + 2 + 2 * k) = pairBytes (ps' ! k)"
          proof (intro allI impI)
            fix k assume "k < m"
            then have "reportedPair rolls (i + 2 * Suc k) = pairBytes (ps ! Suc k)"
              using a [rule_format, of "Suc k"] by simp
            then show "reportedPair rolls (i + 2 + 2 * k) = pairBytes (ps' ! k)"
              by (simp add: ps add.commute add.left_commute)
          qed
          with g' show ?R by blast
        next
          assume ?R
          then obtain ps' nn where g': "genRolls srvSeed combined m nonce' = Some (ps', nn)"
            and a: "\<forall>k<m. reportedPair rolls (i + 2 + 2 * k) = pairBytes (ps' ! k)" by blast
          have g: "genRolls srvSeed combined (Suc m) nonce = Some (p # ps', nn)"
            using Some Inr pn g' by simp
          have "\<forall>k<Suc m. reportedPair rolls (i + 2 * k) = pairBytes ((p # ps') ! k)"
          proof (intro allI impI)
            fix k assume k: "k < Suc m"
            show "reportedPair rolls (i + 2 * k) = pairBytes ((p # ps') ! k)"
            proof (cases k)
              case 0
              with True show ?thesis by simp
            next
              case (Suc k')
              with k a have "reportedPair rolls (i + 2 + 2 * k') = pairBytes (ps' ! k')" by simp
              with Suc show ?thesis by (simp add: add.commute add.left_commute)
            qed
          qed
          with g show ?L by blast
        qed
        with step IH show ?thesis by simp
      qed
    qed
  qed
qed

lemma verifyRolls_mismatch:
  "genRolls srvSeed combined k nonce = Some (ps, nk) \<Longrightarrow>
   (\<forall>j<k. reportedPair rolls (i + 2 * j) = pairBytes (ps ! j)) \<Longrightarrow>
   i + 2 * k + 1 < length rolls \<Longrightarrow>
   rollDice srvSeed combined nk = Some (Inr ((d1, d2), nn)) \<Longrightarrow>
   reportedPair rolls (i + 2 * k) \<noteq> pairBytes (d1, d2) \<Longrightarrow>
   verifyRolls srvSeed combined rolls i nonce =
     Some (Inl (RollMismatch (i + 2 * k) d1 d2
       (fst (reportedPair rolls (i + 2 * k))) (snd (reportedPair rolls (i + 2 * k)))))"
proof (induction k arbitrary: i nonce ps)
  case 0
  then have "i + 1 < length rolls" by simp
  with 0 show ?case
    by (simp add: verifyRolls_step)
next
  case (Suc k)
  then have lt: "i + 1 < length rolls" by simp
  from Suc.prems(1) obtain p nonce' ps' where
    r: "rollDice srvSeed combined nonce = Some (Inr (p, nonce'))"
    and ps: "ps = p # ps'"
    and g': "genRolls srvSeed combined k nonce' = Some (ps', nk)"
    by (auto split: option.splits sum.splits)
  have m0: "reportedPair rolls i = pairBytes p"
    using Suc.prems(2) [rule_format, of 0] ps by simp
  have a': "\<forall>j<k. reportedPair rolls (i + 2 + 2 * j) = pairBytes (ps' ! j)"
  proof (intro allI impI)
    fix j assume "j < k"
    then have "reportedPair rolls (i + 2 * Suc j) = pairBytes (ps ! Suc j)"
      using Suc.prems(2) [rule_format, of "Suc j"] by simp
    then show "reportedPair rolls (i + 2 + 2 * j) = pairBytes (ps' ! j)"
      by (simp add: ps add.commute add.left_commute)
  qed
  have e: "i + 2 + 2 * k = i + 2 * Suc k" by simp
  have "verifyRolls srvSeed combined rolls (i + 2) nonce' =
     Some (Inl (RollMismatch (i + 2 + 2 * k) d1 d2
       (fst (reportedPair rolls (i + 2 + 2 * k))) (snd (reportedPair rolls (i + 2 + 2 * k)))))"
  proof (rule Suc.IH [OF g' a' _ Suc.prems(4)])
    show "i + 2 + 2 * k + 1 < length rolls"
      using Suc.prems(3) by simp
    show "reportedPair rolls (i + 2 + 2 * k) \<noteq> pairBytes (d1, d2)"
      using Suc.prems(5) unfolding e .
  qed
  then show ?case
    using r m0 unfolding e by (simp add: verifyRolls_step [OF lt])
qed

subsection \<open>Big-endian nonce\<close>

lemma unat_ucast_byte: "unat (ucast (v :: 32 word) :: byte) = unat v mod 256"
  by (simp add: unsigned_ucast_eq unsigned_take_bit_eq take_bit_eq_mod)

lemma unat_drop_bit32: "unat (drop_bit k (v :: 32 word)) = unat v div 2 ^ k"
proof -
  have "unat (drop_bit k v) = drop_bit k (unat v)"
    by (rule unat_drop_bit_eq)
  then show ?thesis
    by (simp only: drop_bit_eq_div)
qed

lemma be_split:
  assumes "x < 4294967296"
  shows "((x div 16777216 mod 256 * 256 + x div 65536 mod 256) * 256 + x div 256 mod 256) * 256
           + x mod 256 = (x :: nat)"
    and "((x div 16777216 * 256 + x div 65536 mod 256) * 256 + x div 256 mod 256) * 256
           + x mod 256 = (x :: nat)"
proof -
  define y where "y = x div 256"
  define z where "z = y div 256"
  define w where "w = z div 256"
  have y: "x div 256 = y" by (simp add: y_def)
  have z: "x div 65536 = z" by (simp add: z_def y_def div_mult2_eq)
  have w: "x div 16777216 = w" by (simp add: w_def z_def y_def div_mult2_eq)
  have "w < 256" using assms unfolding w [symmetric] by simp
  then have "w mod 256 = w" by simp
  moreover have "w * 256 + z mod 256 = z" by (simp add: w_def)
  moreover have "z * 256 + y mod 256 = y" by (simp add: z_def)
  moreover have "y * 256 + x mod 256 = x" by (simp add: y_def)
  ultimately show "((x div 16777216 mod 256 * 256 + x div 65536 mod 256) * 256 + x div 256 mod 256) * 256
           + x mod 256 = (x :: nat)"
    and "((x div 16777216 * 256 + x div 65536 mod 256) * 256 + x div 256 mod 256) * 256
           + x mod 256 = (x :: nat)"
    unfolding y z w by simp_all
qed

lemma be_value_PutUint32: "be_value (PutUint32 v) = unat v"
proof -
  have lt: "unat v < 4294967296"
    using unsigned_less [of v, where 'a = nat] by simp
  have "be_value (PutUint32 v) =
      ((unat (ucast (drop_bit 24 v) :: byte) * 256 + unat (ucast (drop_bit 16 v) :: byte)) * 256
        + unat (ucast (drop_bit 8 v) :: byte)) * 256 + unat (ucast v :: byte)"
    by (simp only: be_value_def PutUint32_def foldl.simps mult_zero_left add_0)
  also have "\<dots> = ((unat v div 2 ^ 24 mod 256 * 256 + unat v div 2 ^ 16 mod 256) * 256
        + unat v div 2 ^ 8 mod 256) * 256 + unat v mod 256"
    by (simp only: unat_ucast_byte unat_drop_bit32)
  also have "\<dots> = unat v"
    using be_split [OF lt] by simp
  finally show ?thesis .
qed

subsection \<open>Counting the accepted bytes\<close>

lemma byte_less_252: "(v :: byte) < 252 \<longleftrightarrow> unat v < 252"
  by (simp add: word_less_nat_alt)

lemma unat_of_nat_byte: "n < 256 \<Longrightarrow> unat (of_nat n :: byte) = n"
  by (simp add: unat_of_nat)

lemma face_set:
  assumes "r < 6"
  shows "{v :: byte. v < 252 \<and> uint (v mod 6) + 1 = int r + 1} = (\<lambda>k. of_nat (6 * k + r)) ` {..<42}"
proof (intro equalityI subsetI)
  fix v :: byte
  assume "v \<in> {v. v < 252 \<and> uint (v mod 6) + 1 = int r + 1}"
  then have lt: "unat v < 252" and m: "unat v mod 6 = r"
    by (simp_all add: byte_less_252 face_eq)
  have "unat v = 6 * (unat v div 6) + r"
    using m by presburger
  then have "v = of_nat (6 * (unat v div 6) + r)"
    by (metis of_nat_unat ucast_id)
  moreover have "unat v div 6 < 42"
    using lt by simp
  ultimately show "v \<in> (\<lambda>k. of_nat (6 * k + r)) ` {..<42}"
    by blast
next
  fix v :: byte
  assume "v \<in> (\<lambda>k. of_nat (6 * k + r)) ` {..<42}"
  then obtain k where k: "k < 42" and v: "v = of_nat (6 * k + r)"
    by blast
  have b: "6 * k + r < 252" using k assms by simp
  then have "6 * k + r < 256" by simp
  then have u: "unat v = 6 * k + r"
    unfolding v by (rule unat_of_nat_byte)
  have "unat v mod 6 = r"
    using assms unfolding u by simp
  with u b show "v \<in> {v. v < 252 \<and> uint (v mod 6) + 1 = int r + 1}"
    by (simp add: byte_less_252 face_eq)
qed

lemma face_inj:
  assumes "r < 6"
  shows "inj_on (\<lambda>k. (of_nat (6 * k + r) :: byte)) {..<42}"
proof (rule inj_onI)
  fix k k' :: nat
  assume "k \<in> {..<42}" "k' \<in> {..<42}"
  then have a: "6 * k + r < 256" and b: "6 * k' + r < 256"
    using assms by simp_all
  assume "(of_nat (6 * k + r) :: byte) = of_nat (6 * k' + r)"
  then have "unat (of_nat (6 * k + r) :: byte) = unat (of_nat (6 * k' + r) :: byte)"
    by (rule arg_cong)
  then have "6 * k + r = 6 * k' + r"
    unfolding unat_of_nat_byte [OF a] unat_of_nat_byte [OF b] .
  then show "k = k'" by simp
qed

lemma face_count:
  assumes "r < 6"
  shows "card {v :: byte. v < 252 \<and> uint (v mod 6) + 1 = int r + 1} = 42"
  unfolding face_set [OF assms] by (subst card_image [OF face_inj [OF assms]]) simp

subsection \<open>Verify, stage by stage\<close>


lemma decodeHex_Inr_iff: "decodeHex s name = Inr b \<longleftrightarrow> hex_DecodeString s = Some b"
  by (auto simp: decodeHex_def split: option.splits)

lemma combinedSeedBuf_lex:
  "combinedSeedBuf a b =
     (if str_less (FormatInt (sint (UID b))) (FormatInt (sint (UID a)))
      then mixLeftRight b a else mixLeftRight a b)"
proof (cases "FormatInt (sint (UID a)) = FormatInt (sint (UID b))")
  case True
  then show ?thesis
    by (simp add: combinedSeedBuf_def mixLeftRight_def Let_def str_less_irrefl split: sum.splits)
next
  case False
  then show ?thesis
    using str_less_total [OF False]
    by (simp add: combinedSeedBuf_def mixLeftRight_def Let_def)
qed

lemma combinedSeedBuf_swap: "UID a \<noteq> UID b \<Longrightarrow> combinedSeedBuf a b = combinedSeedBuf b a"
proof -
  assume "UID a \<noteq> UID b"
  then have ne: "FormatInt (sint (UID a)) \<noteq> FormatInt (sint (UID b))"
    using FormatInt_sint_inj by blast
  show ?thesis
    unfolding combinedSeedBuf_lex using str_less_total [OF ne] by simp
qed

lemma combinedSeed_swap: "UID a \<noteq> UID b \<Longrightarrow> combinedSeed a b = combinedSeed b a"
  by (simp add: combinedSeed_def combinedSeedBuf_swap)

lemma combinedSeed_Inl_iff:
  "combinedSeed a b = Inl err \<longleftrightarrow>
     err = NotValidHex ''clientSeed'' \<and>
     (hex_DecodeString (ClientSeed a) = None \<or> hex_DecodeString (ClientSeed b) = None)"
  by (auto simp: combinedSeed_def combinedSeedBuf_lex mixLeftRight_def decodeHex_def
           split: sum.splits option.splits if_splits)

lemma combinedSeed_fields:
  assumes "UID a = UID a'" "ClientSeed a = ClientSeed a'"
    and "UID b = UID b'" "ClientSeed b = ClientSeed b'"
  shows "combinedSeed a b = combinedSeed a' b'"
  unfolding combinedSeed_def combinedSeedBuf_def assms ..

lemma Verify_proceeds:
  "length (Players rep) = 2 \<Longrightarrow> even (length (Rolls rep)) \<Longrightarrow>
   hex_DecodeString (ServerSeed rep) = Some srvSeed \<Longrightarrow>
   sha256Hex srvSeed = ServerSeedHash rep \<Longrightarrow>
   combinedSeed (Players rep ! 0) (Players rep ! 1) = Inr combined \<Longrightarrow>
   Verify rep = verifyRolls srvSeed combined (Rolls rep) 0 0"
  by (simp add: Verify_def decodeHex_def)

lemma verifyRolls_errors:
  "i + 2 * m = length rolls \<Longrightarrow>
   verifyRolls srvSeed combined rolls i nonce = Some (Inl err) \<Longrightarrow>
   \<exists>j d1 d2 a1 a2. err = RollMismatch j d1 d2 a1 a2"
proof (induction m arbitrary: i nonce)
  case 0
  then show ?case by (simp add: verifyRolls_done)
next
  case (Suc m)
  then have lt: "i + 1 < length rolls" by simp
  show ?case
  proof (cases "rollDice srvSeed combined nonce")
    case None
    with Suc.prems(2) show ?thesis by (simp add: verifyRolls_step [OF lt])
  next
    case (Some y)
    then obtain p nonce' where y: "y = Inr (p, nonce')"
      using rollDice_no_panic [of srvSeed combined nonce] by (cases y) auto
    show ?thesis
    proof (cases "reportedPair rolls i = pairBytes p")
      case False
      with Suc.prems(2) Some y show ?thesis by (auto simp: verifyRolls_step [OF lt])
    next
      case True
      then have "verifyRolls srvSeed combined rolls (i + 2) nonce' = Some (Inl err)"
        using Suc.prems(2) Some y by (simp add: verifyRolls_step [OF lt])
      moreover have "i + 2 + 2 * m = length rolls"
        using Suc.prems(1) by simp
      ultimately show ?thesis
        using Suc.IH by blast
    qed
  qed
qed

subsection \<open>Rolls that return\<close>

lemma two_accepted:
  assumes "2 \<le> length (xs :: byte list)"
  obtains v1 v2 vs where "xs = v1 # v2 # vs"
proof (cases xs)
  case Nil
  with assms show ?thesis by simp
next
  case (Cons v1 ys)
  with assms obtain v2 vs where "ys = v2 # vs" by (cases ys) auto
  with Cons that show ?thesis by simp
qed

lemma genRolls_total:
  "\<forall>j < c + k * Suc m.
      2 \<le> length (filter (\<lambda>v. v < 252) (blocks key prefix (of_nat j) (Suc m))) \<Longrightarrow>
   \<exists>ps c'. genRolls key prefix k (of_nat c) = Some (ps, of_nat c') \<and> length ps = k"
proof (induction k arbitrary: c)
  case 0
  then show ?case by auto
next
  case (Suc k)
  have "c < c + Suc k * Suc m" by simp
  with Suc.prems
  have "2 \<le> length (filter (\<lambda>v. v < 252) (blocks key prefix (of_nat c) (Suc m)))"
    by blast
  then obtain v1 v2 vs where
    "filter (\<lambda>v. v < 252) (blocks key prefix (of_nat c) (Suc m)) = v1 # v2 # vs"
    by (rule two_accepted)
  from rollDice_stream [OF this] obtain t where t: "t \<le> m"
    and r: "rollDice key prefix (of_nat c) =
      Some (Inr ((uint (v1 mod 6) + 1, uint (v2 mod 6) + 1), of_nat c + 1 + of_nat t))"
    by blast
  have n: "(of_nat c + 1 + of_nat t :: 32 word) = of_nat (c + 1 + t)"
    by simp
  have "\<forall>j < (c + 1 + t) + k * Suc m.
      2 \<le> length (filter (\<lambda>v. v < 252) (blocks key prefix (of_nat j) (Suc m)))"
  proof (intro allI impI)
    fix j assume "j < (c + 1 + t) + k * Suc m"
    with t have "j < c + Suc k * Suc m" by simp
    with Suc.prems
    show "2 \<le> length (filter (\<lambda>v. v < 252) (blocks key prefix (of_nat j) (Suc m)))"
      by blast
  qed
  from Suc.IH [OF this] obtain ps c' where
    g: "genRolls key prefix k (of_nat (c + 1 + t)) = Some (ps, of_nat c')" and l: "length ps = k"
    by blast
  have "genRolls key prefix (Suc k) (of_nat c) =
      Some ((uint (v1 mod 6) + 1, uint (v2 mod 6) + 1) # ps, of_nat c')"
    using r g unfolding n by simp
  with l show ?case by auto
qed

lemma verifyRolls_compare:
  "i + 2 * k = length rolls \<Longrightarrow>
   genRolls srvSeed combined k nonce = Some (ps, nn) \<Longrightarrow>
   verifyRolls srvSeed combined rolls i nonce = Some (compareRolls rolls i ps)"
proof (induction k arbitrary: i nonce ps)
  case 0
  then show ?case by (simp add: verifyRolls_done)
next
  case (Suc k)
  then have lt: "i + 1 < length rolls" by simp
  from Suc.prems(2) obtain p nonce' ps' where
    r: "rollDice srvSeed combined nonce = Some (Inr (p, nonce'))"
    and ps: "ps = p # ps'"
    and g': "genRolls srvSeed combined k nonce' = Some (ps', nn)"
    by (auto split: option.splits sum.splits)
  have "i + 2 + 2 * k = length rolls"
    using Suc.prems(1) by simp
  from Suc.IH [OF this g']
  show ?case
    using r by (simp add: verifyRolls_step [OF lt] ps)
qed

lemma Verify_returns:
  assumes "length (Players rep) = 2"
    and "even (length (Rolls rep))"
    and "hex_DecodeString (ServerSeed rep) = Some srvSeed"
    and "sha256Hex srvSeed = ServerSeedHash rep"
    and "combinedSeed (Players rep ! 0) (Players rep ! 1) = Inr combined"
    and "streamAccepts srvSeed combined m (length (Rolls rep) div 2)"
  shows "\<exists>ps nn. genRolls srvSeed combined (length (Rolls rep) div 2) 0 = Some (ps, nn) \<and>
           length ps = length (Rolls rep) div 2 \<and>
           Verify rep = Some (compareRolls (Rolls rep) 0 ps)"
proof -
  have "\<forall>j < 0 + (length (Rolls rep) div 2) * Suc m.
      2 \<le> length (filter (\<lambda>v. v < 252) (blocks srvSeed combined (of_nat j) (Suc m)))"
    using assms(6) by (simp add: streamAccepts_def)
  from genRolls_total [OF this] obtain ps c' where
    g: "genRolls srvSeed combined (length (Rolls rep) div 2) 0 = Some (ps, of_nat c')"
    and l: "length ps = length (Rolls rep) div 2"
    by auto
  have e: "0 + 2 * (length (Rolls rep) div 2) = length (Rolls rep)"
    using assms(2) by auto
  have "Verify rep = verifyRolls srvSeed combined (Rolls rep) 0 0"
    using assms(1-5) by (rule Verify_proceeds)
  also have "\<dots> = Some (compareRolls (Rolls rep) 0 ps)"
    using e g by (rule verifyRolls_compare)
  finally show ?thesis
    using g l by blast
qed

lemma even_split: "even (n :: nat) \<Longrightarrow> 0 + 2 * (n div 2) = n"
  by auto


subsection \<open>Hex strings under a change of one character\<close>












subsection \<open>Hex encoding is injective\<close>









subsection \<open>Seeds of any length, reports with a changed seed\<close>






section \<open>The worked report, evaluated\<close>

text \<open>
  SHA-256 is evaluated one compression at a time, each \<open>compress\<close> fact being a
  computation of the simplifier on numerals.
\<close>

lemma replicate_num: "replicate (numeral k) x = x # replicate (pred_numeral k) x"
  by (simp add: numeral_eq_Suc)

lemmas compress_eval = compress_def K256_def add32_def rotr_def shr_def Ch_def Maj_def
  bsig0_def bsig1_def ssig0_def ssig1_def

lemmas sha256_eval = sha256_def pad_def be64_bytes_def replicate_num blocks64.simps H256_def
  be_bytes_def

lemma compress_1:
  "compress
     (1779033703, 3144134277, 1013904242, 2773480762, 1359893119, 2600822924, 528734635,
     1541459225)
     [0, 1, 2, 3, 4, 5, 6, 7, 8, 9, 10, 11, 12, 13, 14, 15, 128, 0, 0, 0, 0, 0, 0, 0, 0, 0, 0,
     0, 0, 0, 0, 0, 0, 0, 0, 0, 0, 0, 0, 0, 0, 0, 0, 0, 0, 0, 0, 0, 0, 0, 0, 0, 0, 0, 0, 0, 0,
     0, 0, 0, 0, 0, 0, 128] =
     (3192245030, 96417470, 3186001028, 438890749, 1137088592, 2749163006, 3685128488,
     3996813713)"
  by (simp add: compress_eval)

lemma sha256_example_seed:
  "sha256
     [0, 1, 2, 3, 4, 5, 6, 7, 8, 9, 10, 11, 12, 13, 14, 15] =
     [190, 69, 203, 38, 5, 191, 54, 190, 189, 230, 132, 132, 26, 40, 240, 253, 67, 198, 152, 80,
     163, 220, 229, 254, 219, 166, 153, 40, 238, 58, 137, 145]"
  by (simp add: sha256_eval compress_1)

lemma compress_2:
  "compress
     (1779033703, 3144134277, 1013904242, 2773480762, 1359893119, 2600822924, 528734635,
     1541459225)
     [49, 48, 58, 57, 58, 15, 30, 45, 60, 75, 90, 105, 120, 135, 150, 165, 180, 195, 210, 225,
     240, 58, 0, 17, 34, 51, 68, 85, 102, 119, 136, 153, 170, 187, 204, 221, 238, 255, 128, 0,
     0, 0, 0, 0, 0, 0, 0, 0, 0, 0, 0, 0, 0, 0, 0, 0, 0, 0, 0, 0, 0, 0, 1, 48] =
     (413973620, 2383324200, 2936529928, 699036257, 767405709, 1279733648, 3680684155,
     488255675)"
  by (simp add: compress_eval)

lemma sha256_example_mix:
  "sha256
     [49, 48, 58, 57, 58, 15, 30, 45, 60, 75, 90, 105, 120, 135, 150, 165, 180, 195, 210, 225,
     240, 58, 0, 17, 34, 51, 68, 85, 102, 119, 136, 153, 170, 187, 204, 221, 238, 255] =
     [24, 172, 188, 116, 142, 14, 164, 40, 175, 7, 228, 8, 41, 170, 114, 97, 45, 189, 174, 141,
     76, 71, 47, 144, 219, 98, 200, 123, 29, 26, 48, 187]"
  by (simp add: sha256_eval compress_2)

lemma compress_3:
  "compress
     (1779033703, 3144134277, 1013904242, 2773480762, 1359893119, 2600822924, 528734635,
     1541459225)
     [54, 55, 52, 53, 50, 51, 48, 49, 62, 63, 60, 61, 58, 59, 56, 57, 54, 54, 54, 54, 54, 54,
     54, 54, 54, 54, 54, 54, 54, 54, 54, 54, 54, 54, 54, 54, 54, 54, 54, 54, 54, 54, 54, 54, 54,
     54, 54, 54, 54, 54, 54, 54, 54, 54, 54, 54, 54, 54, 54, 54, 54, 54, 54, 54] =
     (2690043824, 946326953, 2701940328, 2696149613, 2031585509, 958541949, 3378079182,
     1700649708)"
  by (simp add: compress_eval)

lemma compress_4:
  "compress
     (2690043824, 946326953, 2701940328, 2696149613, 2031585509, 958541949, 3378079182,
     1700649708)
     [24, 172, 188, 116, 142, 14, 164, 40, 175, 7, 228, 8, 41, 170, 114, 97, 45, 189, 174, 141,
     76, 71, 47, 144, 219, 98, 200, 123, 29, 26, 48, 187, 0, 0, 0, 0, 128, 0, 0, 0, 0, 0, 0, 0,
     0, 0, 0, 0, 0, 0, 0, 0, 0, 0, 0, 0, 0, 0, 0, 0, 0, 0, 3, 32] =
     (1607222223, 2568466626, 637508991, 580559986, 1858777882, 1729085091, 1761226730,
     2694254250)"
  by (simp add: compress_eval)

lemma sha256_block0_inner:
  "sha256
     [54, 55, 52, 53, 50, 51, 48, 49, 62, 63, 60, 61, 58, 59, 56, 57, 54, 54, 54, 54, 54, 54,
     54, 54, 54, 54, 54, 54, 54, 54, 54, 54, 54, 54, 54, 54, 54, 54, 54, 54, 54, 54, 54, 54, 54,
     54, 54, 54, 54, 54, 54, 54, 54, 54, 54, 54, 54, 54, 54, 54, 54, 54, 54, 54, 24, 172, 188,
     116, 142, 14, 164, 40, 175, 7, 228, 8, 41, 170, 114, 97, 45, 189, 174, 141, 76, 71, 47,
     144, 219, 98, 200, 123, 29, 26, 48, 187, 0, 0, 0, 0] =
     [95, 204, 67, 207, 153, 23, 176, 194, 37, 255, 157, 127, 34, 154, 164, 114, 110, 202, 179,
     26, 103, 15, 190, 163, 104, 250, 47, 234, 160, 151, 14, 170]"
  by (simp add: sha256_eval compress_3 compress_4)

lemma compress_5:
  "compress
     (1779033703, 3144134277, 1013904242, 2773480762, 1359893119, 2600822924, 528734635,
     1541459225)
     [92, 93, 94, 95, 88, 89, 90, 91, 84, 85, 86, 87, 80, 81, 82, 83, 92, 92, 92, 92, 92, 92,
     92, 92, 92, 92, 92, 92, 92, 92, 92, 92, 92, 92, 92, 92, 92, 92, 92, 92, 92, 92, 92, 92, 92,
     92, 92, 92, 92, 92, 92, 92, 92, 92, 92, 92, 92, 92, 92, 92, 92, 92, 92, 92] =
     (670504455, 1577244816, 3107632823, 2553756875, 1488215857, 3634371310, 1962517703,
     4229616238)"
  by (simp add: compress_eval)

lemma compress_6:
  "compress
     (670504455, 1577244816, 3107632823, 2553756875, 1488215857, 3634371310, 1962517703,
     4229616238)
     [95, 204, 67, 207, 153, 23, 176, 194, 37, 255, 157, 127, 34, 154, 164, 114, 110, 202, 179,
     26, 103, 15, 190, 163, 104, 250, 47, 234, 160, 151, 14, 170, 128, 0, 0, 0, 0, 0, 0, 0, 0,
     0, 0, 0, 0, 0, 0, 0, 0, 0, 0, 0, 0, 0, 0, 0, 0, 0, 0, 0, 0, 0, 3, 0] =
     (322330757, 65219031, 4087858238, 653838488, 634618508, 1511946005, 2351962232, 3993565484)"
  by (simp add: compress_eval)

lemma sha256_block0_outer:
  "sha256
     [92, 93, 94, 95, 88, 89, 90, 91, 84, 85, 86, 87, 80, 81, 82, 83, 92, 92, 92, 92, 92, 92,
     92, 92, 92, 92, 92, 92, 92, 92, 92, 92, 92, 92, 92, 92, 92, 92, 92, 92, 92, 92, 92, 92, 92,
     92, 92, 92, 92, 92, 92, 92, 92, 92, 92, 92, 92, 92, 92, 92, 92, 92, 92, 92, 95, 204, 67,
     207, 153, 23, 176, 194, 37, 255, 157, 127, 34, 154, 164, 114, 110, 202, 179, 26, 103, 15,
     190, 163, 104, 250, 47, 234, 160, 151, 14, 170] =
     [19, 54, 96, 133, 3, 227, 41, 215, 243, 167, 196, 62, 38, 248, 200, 152, 37, 211, 130, 140,
     90, 30, 119, 21, 140, 48, 24, 120, 238, 8, 249, 44]"
  by (simp add: sha256_eval compress_5 compress_6)

lemma compress_7:
  "compress
     (2690043824, 946326953, 2701940328, 2696149613, 2031585509, 958541949, 3378079182,
     1700649708)
     [24, 172, 188, 116, 142, 14, 164, 40, 175, 7, 228, 8, 41, 170, 114, 97, 45, 189, 174, 141,
     76, 71, 47, 144, 219, 98, 200, 123, 29, 26, 48, 187, 0, 0, 0, 1, 128, 0, 0, 0, 0, 0, 0, 0,
     0, 0, 0, 0, 0, 0, 0, 0, 0, 0, 0, 0, 0, 0, 0, 0, 0, 0, 3, 32] =
     (3604374396, 4228729718, 606159936, 4231229167, 2708289445, 2189145005, 1319075489,
     175916640)"
  by (simp add: compress_eval)

lemma sha256_block1_inner:
  "sha256
     [54, 55, 52, 53, 50, 51, 48, 49, 62, 63, 60, 61, 58, 59, 56, 57, 54, 54, 54, 54, 54, 54,
     54, 54, 54, 54, 54, 54, 54, 54, 54, 54, 54, 54, 54, 54, 54, 54, 54, 54, 54, 54, 54, 54, 54,
     54, 54, 54, 54, 54, 54, 54, 54, 54, 54, 54, 54, 54, 54, 54, 54, 54, 54, 54, 24, 172, 188,
     116, 142, 14, 164, 40, 175, 7, 228, 8, 41, 170, 114, 97, 45, 189, 174, 141, 76, 71, 47,
     144, 219, 98, 200, 123, 29, 26, 48, 187, 0, 0, 0, 1] =
     [214, 214, 99, 124, 252, 13, 75, 118, 36, 33, 68, 64, 252, 51, 110, 239, 161, 109, 55, 165,
     130, 123, 179, 173, 78, 159, 126, 161, 10, 124, 70, 96]"
  by (simp add: sha256_eval compress_3 compress_7)

lemma compress_8:
  "compress
     (670504455, 1577244816, 3107632823, 2553756875, 1488215857, 3634371310, 1962517703,
     4229616238)
     [214, 214, 99, 124, 252, 13, 75, 118, 36, 33, 68, 64, 252, 51, 110, 239, 161, 109, 55, 165,
     130, 123, 179, 173, 78, 159, 126, 161, 10, 124, 70, 96, 128, 0, 0, 0, 0, 0, 0, 0, 0, 0, 0,
     0, 0, 0, 0, 0, 0, 0, 0, 0, 0, 0, 0, 0, 0, 0, 0, 0, 0, 0, 3, 0] =
     (432135709, 50545748, 1478887902, 2242314063, 3455090058, 3909923291, 2753077950, 76936143)"
  by (simp add: compress_eval)

lemma sha256_block1_outer:
  "sha256
     [92, 93, 94, 95, 88, 89, 90, 91, 84, 85, 86, 87, 80, 81, 82, 83, 92, 92, 92, 92, 92, 92,
     92, 92, 92, 92, 92, 92, 92, 92, 92, 92, 92, 92, 92, 92, 92, 92, 92, 92, 92, 92, 92, 92, 92,
     92, 92, 92, 92, 92, 92, 92, 92, 92, 92, 92, 92, 92, 92, 92, 92, 92, 92, 92, 214, 214, 99,
     124, 252, 13, 75, 118, 36, 33, 68, 64, 252, 51, 110, 239, 161, 109, 55, 165, 130, 123, 179,
     173, 78, 159, 126, 161, 10, 124, 70, 96] =
     [25, 193, 222, 29, 3, 3, 68, 84, 88, 38, 9, 222, 133, 166, 255, 79, 205, 240, 125, 138,
     233, 12, 177, 219, 164, 24, 162, 190, 4, 149, 243, 207]"
  by (simp add: sha256_eval compress_5 compress_8)

lemma compress_9:
  "compress
     (1779033703, 3144134277, 1013904242, 2773480762, 1359893119, 2600822924, 528734635,
     1541459225)
     [57, 58, 57, 58, 0, 58, 1, 128, 0, 0, 0, 0, 0, 0, 0, 0, 0, 0, 0, 0, 0, 0, 0, 0, 0, 0, 0, 0,
     0, 0, 0, 0, 0, 0, 0, 0, 0, 0, 0, 0, 0, 0, 0, 0, 0, 0, 0, 0, 0, 0, 0, 0, 0, 0, 0, 0, 0, 0,
     0, 0, 0, 0, 0, 56] =
     (152490793, 2080862279, 1664623690, 1130470756, 1491804979, 1501843975, 786993602,
     971025871)"
  by (simp add: compress_eval)

lemma sha256_tie_ab:
  "sha256
     [57, 58, 57, 58, 0, 58, 1] =
     [9, 22, 211, 41, 124, 7, 112, 71, 99, 56, 36, 74, 67, 97, 157, 100, 88, 235, 35, 51, 89,
     132, 82, 7, 46, 232, 145, 194, 57, 224, 173, 207]"
  by (simp add: sha256_eval compress_9)

lemma compress_10:
  "compress
     (1779033703, 3144134277, 1013904242, 2773480762, 1359893119, 2600822924, 528734635,
     1541459225)
     [57, 58, 57, 58, 1, 58, 0, 128, 0, 0, 0, 0, 0, 0, 0, 0, 0, 0, 0, 0, 0, 0, 0, 0, 0, 0, 0, 0,
     0, 0, 0, 0, 0, 0, 0, 0, 0, 0, 0, 0, 0, 0, 0, 0, 0, 0, 0, 0, 0, 0, 0, 0, 0, 0, 0, 0, 0, 0,
     0, 0, 0, 0, 0, 56] =
     (1026585812, 116334382, 4281777982, 448296975, 3812067675, 1037632840, 257169139,
     2642293796)"
  by (simp add: compress_eval)

lemma sha256_tie_ba:
  "sha256
     [57, 58, 57, 58, 1, 58, 0] =
     [61, 48, 116, 212, 6, 239, 31, 46, 255, 54, 191, 62, 26, 184, 120, 15, 227, 55, 137, 91,
     61, 217, 5, 72, 15, 84, 22, 243, 157, 126, 52, 36]"
  by (simp add: sha256_eval compress_10)




lemma example_hash:
  "sha256Hex example_seed = ''be45cb2605bf36bebde684841a28f0fd43c69850a3dce5fedba69928ee3a8991''"
  by (simp add: sha256Hex_def example_seed_def sha256_example_seed hex_EncodeToString_def
        hextable_def)

lemma FormatInt_9: "FormatInt 9 = ''9''"
  by (simp add: FormatInt_def digits10.simps digits_def)

lemma FormatInt_10: "FormatInt 10 = ''10''"
  by (simp add: FormatInt_def digits10.simps digits_def)

lemma example_buf:
  "combinedSeedBuf player_a player_b = Inr
     [49, 48, 58, 57, 58, 15, 30, 45, 60, 75, 90, 105, 120, 135, 150, 165, 180, 195, 210, 225,
     240, 58, 0, 17, 34, 51, 68, 85, 102, 119, 136, 153, 170, 187, 204, 221, 238, 255]"
  by (simp add: combinedSeedBuf_lex mixLeftRight_def player_a_def player_b_def FormatInt_9
        FormatInt_10 decodeHex_def fromHexChar_def)

lemma example_mix: "combinedSeed player_a player_b = Inr example_combined"
  by (simp add: combinedSeed_def example_buf sha256_example_mix example_combined_def)

lemma example_block0:
  "hmacBlock example_seed example_combined 0 =
     [19, 54, 96, 133, 3, 227, 41, 215, 243, 167, 196, 62, 38, 248, 200, 152, 37, 211, 130, 140,
     90, 30, 119, 21, 140, 48, 24, 120, 238, 8, 249, 44]"
  by (simp add: hmacBlock_eq PutUint32_def hmac_sha256_def replicate_num example_seed_def
        example_combined_def sha256_block0_inner sha256_block0_outer)

lemma example_block1:
  "hmacBlock example_seed example_combined 1 =
     [25, 193, 222, 29, 3, 3, 68, 84, 88, 38, 9, 222, 133, 166, 255, 79, 205, 240, 125, 138,
     233, 12, 177, 219, 164, 24, 162, 190, 4, 149, 243, 207]"
  by (simp add: hmacBlock_eq PutUint32_def hmac_sha256_def replicate_num example_seed_def
        example_combined_def sha256_block1_inner sha256_block1_outer)

lemma example_roll0: "rollDice example_seed example_combined 0 = Some (Inr ((2, 1), 1))"
  by (simp add: rollDice_def example_block0 drawDie_accept)

lemma example_roll1: "rollDice example_seed example_combined 1 = Some (Inr ((2, 2), 2))"
  by (simp add: rollDice_def example_block1 drawDie_accept)

lemma example_rolls:
  "genRolls example_seed example_combined 2 0 = Some ([(2, 1), (2, 2)], 2)"
  by (simp add: numeral_2_eq_2 example_roll0 example_roll1)

lemma all_less_2: "(\<forall>k<(2::nat). P k) \<longleftrightarrow> P 0 \<and> P 1"
  by (auto simp: less_2_cases_iff)

lemma example_valid:
  "length (Players example_report) = 2"
  "even (length (Rolls example_report))"
  "decodeHex (ServerSeed example_report) ''serverSeed'' = Inr example_seed"
  "sha256Hex example_seed = ServerSeedHash example_report"
  "combinedSeed (Players example_report ! 0) (Players example_report ! 1) = Inr example_combined"
  by (simp_all add: example_report_def decodeHex_def fromHexChar_def example_seed_def
        example_hash [unfolded example_seed_def] example_mix)

lemma example_stream: "streamAccepts example_seed example_combined 0 2"
proof -
  have "\<forall>j<2. 2 \<le> length (filter (\<lambda>v. v < 252)
      (blocks example_seed example_combined (of_nat j) (Suc 0)))"
    unfolding all_less_2 by (simp add: blocks_def example_block0 example_block1)
  then show ?thesis
    by (simp add: streamAccepts_def)
qed

lemma example_proceeds:
  "Verify example_report = verifyRolls example_seed example_combined ''2122'' 0 0"
  using example_valid by (simp add: Verify_def example_report_def)

lemma example_verified: "Verify example_report = Some (Inr ())"
proof -
  have "\<forall>k<2. reportedPair ''2122'' (0 + 2 * k) = pairBytes ([(2, 1), (2, 2)] ! k)"
    by (simp add: all_less_2 reportedPair_def pairBytes_def)
  then show ?thesis
    using verifyRolls_ok_iff [of 0 2 "''2122''" example_seed example_combined 0] example_rolls
    unfolding example_proceeds by auto
qed

lemma length_hex_EncodeToString: "length (hex_EncodeToString bs) = 2 * length bs"
  by (induction bs) (simp_all add: hex_EncodeToString_def)

lemma length_sha256Hex: "length (sha256Hex b) = 64"
  by (simp add: sha256Hex_def length_hex_EncodeToString length_sha256)







section \<open>The claims\<close>

subsection \<open>C1: end-to-end verification\<close>

text \<open>
  Claim C1. For a structurally valid report (two players, a roll string of even length, a
  server seed that decodes and matches its commitment, client seeds that decode), \<open>Verify\<close>
  succeeds exactly when the rolls regenerated by \<open>rollDice\<close> from nonce 0 all return and
  every reported pair equals the regenerated one. If the first \<open>k\<close> pairs agree and the
  next one differs, \<open>Verify\<close> fails with the character offset \<open>2 * k\<close> of that roll, the
  generated pair and the reported pair. And \<open>Verify\<close> does return: whenever, for some
  \<open>m\<close>, every run of \<open>m + 1\<close> blocks of the stream holds two accepted bytes, all the rolls
  are generated and the outcome is that of the comparator on them, success or the first
  mismatch.
\<close>

theorem Verify_end_to_end:
  assumes "length (Players rep) = 2"
    and "even (length (Rolls rep))"
    and "decodeHex (ServerSeed rep) ''serverSeed'' = Inr srvSeed"
    and "sha256Hex srvSeed = ServerSeedHash rep"
    and "combinedSeed (Players rep ! 0) (Players rep ! 1) = Inr combined"
  shows "(Verify rep = Some (Inr ()) \<longleftrightarrow>
            (\<exists>ps nn. genRolls srvSeed combined (length (Rolls rep) div 2) 0 = Some (ps, nn) \<and>
               (\<forall>k < length (Rolls rep) div 2.
                  reportedPair (Rolls rep) (2 * k) = pairBytes (ps ! k)))) \<and>
         (\<forall>k ps nk d1 d2 nn.
            2 * k < length (Rolls rep) \<and>
            genRolls srvSeed combined k 0 = Some (ps, nk) \<and>
            (\<forall>j<k. reportedPair (Rolls rep) (2 * j) = pairBytes (ps ! j)) \<and>
            rollDice srvSeed combined nk = Some (Inr ((d1, d2), nn)) \<and>
            reportedPair (Rolls rep) (2 * k) \<noteq> pairBytes (d1, d2) \<longrightarrow>
            Verify rep = Some (Inl (RollMismatch (2 * k) d1 d2
              (fst (reportedPair (Rolls rep) (2 * k))) (snd (reportedPair (Rolls rep) (2 * k)))))) \<and>
         (\<forall>m. streamAccepts srvSeed combined m (length (Rolls rep) div 2) \<longrightarrow>
            (\<exists>ps nn. genRolls srvSeed combined (length (Rolls rep) div 2) 0 = Some (ps, nn) \<and>
               length ps = length (Rolls rep) div 2 \<and>
               Verify rep = Some (compareRolls (Rolls rep) 0 ps)))"
proof -
  have V: "Verify rep = verifyRolls srvSeed combined (Rolls rep) 0 0"
    using assms by (intro Verify_proceeds) (simp_all add: decodeHex_Inr_iff)
  have ok: "Verify rep = Some (Inr ()) \<longleftrightarrow>
      (\<exists>ps nn. genRolls srvSeed combined (length (Rolls rep) div 2) 0 = Some (ps, nn) \<and>
         (\<forall>k < length (Rolls rep) div 2.
            reportedPair (Rolls rep) (2 * k) = pairBytes (ps ! k)))"
    unfolding V using verifyRolls_ok_iff [OF even_split [OF assms(2)], of srvSeed combined 0]
    by simp
  have bad: "Verify rep = Some (Inl (RollMismatch (2 * k) d1 d2
              (fst (reportedPair (Rolls rep) (2 * k))) (snd (reportedPair (Rolls rep) (2 * k)))))"
    if "2 * k < length (Rolls rep)"
      and "genRolls srvSeed combined k 0 = Some (ps, nk)"
      and "\<forall>j<k. reportedPair (Rolls rep) (2 * j) = pairBytes (ps ! j)"
      and "rollDice srvSeed combined nk = Some (Inr ((d1, d2), nn))"
      and "reportedPair (Rolls rep) (2 * k) \<noteq> pairBytes (d1, d2)"
    for k ps nk d1 d2 nn
  proof -
    have "0 + 2 * k + 1 < length (Rolls rep)"
      using that(1) assms(2) by presburger
    then show ?thesis
      unfolding V
      using verifyRolls_mismatch [of srvSeed combined k 0 ps nk "Rolls rep" 0 d1 d2 nn] that
      by simp
  qed
  have ret: "\<exists>ps nn. genRolls srvSeed combined (length (Rolls rep) div 2) 0 = Some (ps, nn) \<and>
      length ps = length (Rolls rep) div 2 \<and>
      Verify rep = Some (compareRolls (Rolls rep) 0 ps)"
    if "streamAccepts srvSeed combined m (length (Rolls rep) div 2)" for m
    using assms that by (intro Verify_returns) (simp_all add: decodeHex_Inr_iff)
  show ?thesis
    using ok bad ret by blast
qed

text \<open>
  The worked report satisfies the hypotheses and verifies; with its second roll changed to
  \<open>62\<close> it fails at offset 2, expected (2,2), got (6,2). Its stream holds two accepted bytes
  in every block, so the outcome is computed by the comparator on the rolls (2,1), (2,2).
\<close>

theorem Verify_end_to_end_witness:
  "length (Players example_report) = 2 \<and> even (length (Rolls example_report)) \<and>
   decodeHex (ServerSeed example_report) ''serverSeed'' = Inr example_seed \<and>
   sha256Hex example_seed = ServerSeedHash example_report \<and>
   combinedSeed (Players example_report ! 0) (Players example_report ! 1) = Inr example_combined \<and>
   Verify example_report = Some (Inr ()) \<and>
   Verify (example_report\<lparr>Rolls := ''2162''\<rparr>) = Some (Inl (RollMismatch 2 2 2 6 2)) \<and>
   streamAccepts example_seed example_combined 0 (length (Rolls example_report) div 2) \<and>
   Verify example_report = Some (compareRolls (Rolls example_report) 0 [(2, 1), (2, 2)])"
proof -
  have r: "Rolls example_report = ''2122''"
    by (simp add: example_report_def)
  have n: "length (Rolls example_report) div 2 = 2"
    by (simp add: r)
  have m: "\<forall>k<2. reportedPair (Rolls example_report) (2 * k) = pairBytes ([(2, 1), (2, 2)] ! k)"
    by (simp add: all_less_2 r reportedPair_def pairBytes_def)
  have good: "Verify example_report = Some (Inr ())"
    using Verify_end_to_end [OF example_valid, THEN conjunct1] example_rolls m
    unfolding n by blast
  have v: "length (Players (example_report\<lparr>Rolls := ''2162''\<rparr>)) = 2"
    "even (length (Rolls (example_report\<lparr>Rolls := ''2162''\<rparr>)))"
    "decodeHex (ServerSeed (example_report\<lparr>Rolls := ''2162''\<rparr>)) ''serverSeed'' = Inr example_seed"
    "sha256Hex example_seed = ServerSeedHash (example_report\<lparr>Rolls := ''2162''\<rparr>)"
    "combinedSeed (Players (example_report\<lparr>Rolls := ''2162''\<rparr>) ! 0)
       (Players (example_report\<lparr>Rolls := ''2162''\<rparr>) ! 1) = Inr example_combined"
    using example_valid by simp_all
  have g1: "genRolls example_seed example_combined 1 0 = Some ([(2, 1)], 1)"
    by (simp add: example_roll0)
  have "Verify (example_report\<lparr>Rolls := ''2162''\<rparr>) =
      Some (Inl (RollMismatch (2 * 1) 2 2
        (fst (reportedPair (Rolls (example_report\<lparr>Rolls := ''2162''\<rparr>)) (2 * 1)))
        (snd (reportedPair (Rolls (example_report\<lparr>Rolls := ''2162''\<rparr>)) (2 * 1)))))"
  proof (rule Verify_end_to_end [OF v, THEN conjunct2, THEN conjunct1, rule_format,
        of 1 "[(2, 1)]" 1 2 2 2])
    show "2 * 1 < length (Rolls (example_report\<lparr>Rolls := ''2162''\<rparr>)) \<and>
      genRolls example_seed example_combined 1 0 = Some ([(2, 1)], 1) \<and>
      (\<forall>j<1. reportedPair (Rolls (example_report\<lparr>Rolls := ''2162''\<rparr>)) (2 * j) =
         pairBytes ([(2, 1)] ! j)) \<and>
      rollDice example_seed example_combined 1 = Some (Inr ((2, 2), 2)) \<and>
      reportedPair (Rolls (example_report\<lparr>Rolls := ''2162''\<rparr>)) (2 * 1) \<noteq> pairBytes (2, 2)"
      using g1 example_roll1 by (simp add: reportedPair_def pairBytes_def)
  qed
  then have bad: "Verify (example_report\<lparr>Rolls := ''2162''\<rparr>) =
      Some (Inl (RollMismatch 2 2 2 6 2))"
    by (simp add: reportedPair_def)
  have st: "streamAccepts example_seed example_combined 0 (length (Rolls example_report) div 2)"
    unfolding n by (rule example_stream)
  from Verify_end_to_end [OF example_valid, THEN conjunct2, THEN conjunct2, rule_format, OF st]
  obtain ps nn where
    "genRolls example_seed example_combined (length (Rolls example_report) div 2) 0 = Some (ps, nn)"
    and c: "Verify example_report = Some (compareRolls (Rolls example_report) 0 ps)"
    by blast
  then have "ps = [(2, 1), (2, 2)]"
    using example_rolls unfolding n by simp
  with c have tot: "Verify example_report =
      Some (compareRolls (Rolls example_report) 0 [(2, 1), (2, 2)])"
    by simp
  show ?thesis
    using example_valid good bad st tot by simp
qed

subsection \<open>C2: the two ordering decisions of the seed mixer\<close>

text \<open>
  Claim C2 as stated fails. It says that the seed bytes are ordered by the numeric values of
  the UIDs. For UIDs 9 and 10 the source puts the seed of UID 10 first, as its header does,
  where a numeric comparison would put the seed of UID 9 first.
\<close>

theorem seed_mixer_numeric_counterexample:
  "combinedSeedBuf \<lparr>UID = 9, ClientSeed = ''aa'', Source = ''player''\<rparr>
     \<lparr>UID = 10, ClientSeed = ''bb'', Source = ''player''\<rparr> =
     Inr [49, 48, 58, 57, 58, 187, 58, 170] \<and>
   combinedSeedBuf_numeric \<lparr>UID = 9, ClientSeed = ''aa'', Source = ''player''\<rparr>
     \<lparr>UID = 10, ClientSeed = ''bb'', Source = ''player''\<rparr> =
     Inr [49, 48, 58, 57, 58, 170, 58, 187]"
  by (simp add: combinedSeedBuf_lex mixLeftRight_def combinedSeedBuf_numeric_def FormatInt_9
        FormatInt_10 decodeHex_def fromHexChar_def)

text \<open>
  Claim C2, amended. Both decisions of \<open>combinedSeed\<close> compare the decimal strings of the
  UIDs: if the string of \<open>b\<close> is smaller than the string of \<open>a\<close>, header and seeds are
  those of \<open>b\<close> then \<open>a\<close>, otherwise those of \<open>a\<close> then \<open>b\<close>. The combined seed is
  the SHA-256 of that buffer.
\<close>

theorem seed_mixer_order:
  "combinedSeedBuf a b =
     (if str_less (FormatInt (sint (UID b))) (FormatInt (sint (UID a)))
      then mixLeftRight b a else mixLeftRight a b) \<and>
   combinedSeed a b =
     (case combinedSeedBuf a b of Inl err \<Rightarrow> Inl err | Inr buf \<Rightarrow> Inr (sha256 buf))"
  using combinedSeedBuf_lex [of a b] by (simp add: combinedSeed_def)

text \<open>
  For UIDs 9 and 10, in either input order, the entry with UID 10 is the left one.
\<close>

theorem seed_mixer_order_witness:
  "combinedSeedBuf \<lparr>UID = 9, ClientSeed = ''aa'', Source = ''player''\<rparr>
     \<lparr>UID = 10, ClientSeed = ''bb'', Source = ''player''\<rparr> =
     mixLeftRight \<lparr>UID = 10, ClientSeed = ''bb'', Source = ''player''\<rparr>
       \<lparr>UID = 9, ClientSeed = ''aa'', Source = ''player''\<rparr> \<and>
   combinedSeedBuf \<lparr>UID = 10, ClientSeed = ''bb'', Source = ''player''\<rparr>
     \<lparr>UID = 9, ClientSeed = ''aa'', Source = ''player''\<rparr> =
     mixLeftRight \<lparr>UID = 10, ClientSeed = ''bb'', Source = ''player''\<rparr>
       \<lparr>UID = 9, ClientSeed = ''aa'', Source = ''player''\<rparr>"
  using seed_mixer_order [of "\<lparr>UID = 9, ClientSeed = ''aa'', Source = ''player''\<rparr>"
      "\<lparr>UID = 10, ClientSeed = ''bb'', Source = ''player''\<rparr>"]
    seed_mixer_order [of "\<lparr>UID = 10, ClientSeed = ''bb'', Source = ''player''\<rparr>"
      "\<lparr>UID = 9, ClientSeed = ''aa'', Source = ''player''\<rparr>"]
  by (simp add: FormatInt_9 FormatInt_10)

subsection \<open>C3: order-independence of the seed mixing\<close>

text \<open>
  Claim C3 as stated fails for two entries with the same UID and different seeds: the
  seeds are then hashed in input order.
\<close>

theorem seed_mix_tie_counterexample:
  "combinedSeed \<lparr>UID = 9, ClientSeed = ''00'', Source = ''player''\<rparr>
     \<lparr>UID = 9, ClientSeed = ''01'', Source = ''player''\<rparr> =
     Inr [9, 22, 211, 41, 124, 7, 112, 71, 99, 56, 36, 74, 67, 97, 157, 100, 88, 235, 35, 51, 89,
          132, 82, 7, 46, 232, 145, 194, 57, 224, 173, 207] \<and>
   combinedSeed \<lparr>UID = 9, ClientSeed = ''01'', Source = ''player''\<rparr>
     \<lparr>UID = 9, ClientSeed = ''00'', Source = ''player''\<rparr> =
     Inr [61, 48, 116, 212, 6, 239, 31, 46, 255, 54, 191, 62, 26, 184, 120, 15, 227, 55, 137, 91,
          61, 217, 5, 72, 15, 84, 22, 243, 157, 126, 52, 36]"
  by (simp add: combinedSeed_def combinedSeedBuf_lex mixLeftRight_def FormatInt_9 decodeHex_def
        fromHexChar_def sha256_tie_ab sha256_tie_ba)

text \<open>
  Claim C3, amended. For two entries with different UIDs, \<open>combinedSeed a b\<close> equals
  \<open>combinedSeed b a\<close>, and swapping the two players of a report does not change the
  outcome of \<open>Verify\<close>.
\<close>

theorem seed_mix_order_independent:
  assumes "UID a \<noteq> UID b"
  shows "combinedSeed a b = combinedSeed b a \<and>
     (Players rep = [a, b] \<longrightarrow> Verify (rep\<lparr>Players := [b, a]\<rparr>) = Verify rep)"
proof -
  have cs: "combinedSeed b a = combinedSeed a b"
    using assms by (simp add: combinedSeed_swap)
  have "Verify (rep\<lparr>Players := [b, a]\<rparr>) = Verify rep" if "Players rep = [a, b]"
    unfolding Verify_def using that by (simp add: cs split: sum.splits)
  with cs show ?thesis by simp
qed

text \<open>
  The worked report with its two players swapped still verifies.
\<close>

theorem seed_mix_order_independent_witness:
  "UID player_a \<noteq> UID player_b \<and>
   combinedSeed player_b player_a = Inr example_combined \<and>
   Verify (example_report\<lparr>Players := [player_b, player_a]\<rparr>) = Some (Inr ())"
proof -
  have u: "UID player_a \<noteq> UID player_b"
    by (simp add: player_a_def player_b_def)
  have p: "Players example_report = [player_a, player_b]"
    by (simp add: example_report_def)
  from seed_mix_order_independent [OF u, of example_report] p example_mix example_verified u
  show ?thesis by simp
qed

subsection \<open>C4: commitment enforcement under bit flips\<close>




subsection \<open>C5: the block protocol of the dice stream\<close>

text \<open>
  Claim C5. The block of nonce \<open>n\<close> is the HMAC-SHA256, keyed by the server seed, of the
  combined seed followed by the four bytes of \<open>n\<close>, most significant first; it has 32 bytes.
  A roll starts on the block of the nonce before the roll with the nonce incremented and makes
  two draws. A draw whose cursor has exhausted the pool continues on the block of the next
  nonce at cursor 0. So the two dice of a roll are the faces of the first two accepted bytes
  of the blocks from the nonce before the roll on, whatever block they lie in.
\<close>

theorem dice_stream_protocol:
  "hmacBlock key prefix n = hmac_sha256 key (prefix @ PutUint32 n) \<and>
   length (PutUint32 n) = 4 \<and> be_value (PutUint32 n) = unat n \<and>
   length (hmacBlock key prefix n) = 32 \<and>
   rollDice key prefix n =
     (case drawDie key prefix (n + 1) (hmacBlock key prefix n) 0 of
        None \<Rightarrow> None
      | Some (Inl err) \<Rightarrow> Some (Inl err)
      | Some (Inr (d1, n1, pool1, idx1)) \<Rightarrow>
          (case drawDie key prefix n1 pool1 idx1 of
             None \<Rightarrow> None
           | Some (Inl err) \<Rightarrow> Some (Inl err)
           | Some (Inr (d2, n2, pool2, idx2)) \<Rightarrow> Some (Inr ((d1, d2), n2)))) \<and>
   (length pool \<le> idx \<longrightarrow>
      drawDie key prefix n pool idx = drawDie key prefix (n + 1) (hmacBlock key prefix n) 0) \<and>
   (\<forall>v1 v2 vs. filter (\<lambda>v. v < 252) (blocks key prefix n (Suc m)) = v1 # v2 # vs \<longrightarrow>
      (\<exists>t \<le> m. rollDice key prefix n =
         Some (Inr ((uint (v1 mod 6) + 1, uint (v2 mod 6) + 1), n + 1 + of_nat t))))"
proof -
  have "length (PutUint32 n) = 4"
    by (simp add: PutUint32_def)
  moreover have "rollDice key prefix n =
     (case drawDie key prefix (n + 1) (hmacBlock key prefix n) 0 of
        None \<Rightarrow> None
      | Some (Inl err) \<Rightarrow> Some (Inl err)
      | Some (Inr (d1, n1, pool1, idx1)) \<Rightarrow>
          (case drawDie key prefix n1 pool1 idx1 of
             None \<Rightarrow> None
           | Some (Inl err) \<Rightarrow> Some (Inl err)
           | Some (Inr (d2, n2, pool2, idx2)) \<Rightarrow> Some (Inr ((d1, d2), n2))))"
    by (simp add: rollDice_def)
  ultimately show ?thesis
    using hmacBlock_eq be_value_PutUint32 length_hmacBlock drawDie_refill rollDice_stream
    by blast
qed

text \<open>
  On the worked report: the block of nonce 0, the refill of an empty pool, and the first
  roll, read off the first two accepted bytes 19 and 54.
\<close>

theorem dice_stream_protocol_witness:
  "hmacBlock example_seed example_combined 0 =
     hmac_sha256 example_seed (example_combined @ [0, 0, 0, 0]) \<and>
   be_value (PutUint32 258) = 258 \<and>
   drawDie example_seed example_combined 0 [] 0 =
     drawDie example_seed example_combined 1 (hmacBlock example_seed example_combined 0) 0 \<and>
   take 2 (filter (\<lambda>v. v < 252) (blocks example_seed example_combined 0 (Suc 0))) = [19, 54] \<and>
   rollDice example_seed example_combined 0 = Some (Inr ((2, 1), 1))"
proof -
  note T = dice_stream_protocol [of example_seed example_combined 0 "[]" 0 0]
  have b: "blocks example_seed example_combined 0 (Suc 0) = hmacBlock example_seed example_combined 0"
    by (simp add: blocks_def)
  have f: "filter (\<lambda>v. v < 252) (blocks example_seed example_combined 0 (Suc 0)) =
      19 # 54 # [96, 133, 3, 227, 41, 215, 243, 167, 196, 62, 38, 248, 200, 152, 37, 211, 130, 140,
        90, 30, 119, 21, 140, 48, 24, 120, 238, 8, 249, 44]"
    by (simp add: b example_block0)
  have "rollDice example_seed example_combined 0 = Some (Inr ((2, 1), 1))"
    using T [THEN conjunct2, THEN conjunct2, THEN conjunct2, THEN conjunct2, THEN conjunct2,
        THEN conjunct2, rule_format, OF f]
    by simp
  moreover have "hmacBlock example_seed example_combined 0 =
      hmac_sha256 example_seed (example_combined @ [0, 0, 0, 0])"
    using T by (simp add: PutUint32_def)
  moreover have "be_value (PutUint32 258) = 258"
    using dice_stream_protocol [of example_seed example_combined 258 "[]" 0 0] by simp
  moreover have "drawDie example_seed example_combined 0 [] 0 =
      drawDie example_seed example_combined 1 (hmacBlock example_seed example_combined 0) 0"
    using T by simp
  ultimately show ?thesis
    using f by simp
qed

subsection \<open>C6: rejection sampling\<close>

text \<open>
  Claim C6. A byte below 252 under the cursor is accepted and gives the face
  \<open>(v mod 6) + 1\<close>; a byte from 252 on only advances the cursor. Whatever \<open>drawDie\<close> returns
  is the face of the accepted byte it read last, between 1 and 6. Exactly 42 of the accepted
  byte values give each face.
\<close>

theorem rejection_sampling:
  "(idx < length pool \<and> pool ! idx < 252 \<longrightarrow>
      drawDie key prefix nonce pool idx =
        Some (Inr (uint (pool ! idx mod 6) + 1, nonce, pool, idx + 1))) \<and>
   (idx < length pool \<and> \<not> pool ! idx < 252 \<longrightarrow>
      drawDie key prefix nonce pool idx = drawDie key prefix nonce pool (idx + 1)) \<and>
   (\<forall>y. drawDie key prefix nonce pool idx = Some y \<longrightarrow>
      (\<exists>d nonce' pool' idx'. y = Inr (d, nonce', pool', idx') \<and>
         0 < idx' \<and> idx' \<le> length pool' \<and> pool' ! (idx' - 1) < 252 \<and>
         d = uint (pool' ! (idx' - 1) mod 6) + 1 \<and> 1 \<le> d \<and> d \<le> 6)) \<and>
   (\<forall>v :: byte. 1 \<le> uint (v mod 6) + 1 \<and> uint (v mod 6) + 1 \<le> 6) \<and>
   (\<forall>r < 6. card {v :: byte. v < 252 \<and> uint (v mod 6) + 1 = int r + 1} = 42)"
proof -
  have "\<exists>d nonce' pool' idx'. y = Inr (d, nonce', pool', idx') \<and>
         0 < idx' \<and> idx' \<le> length pool' \<and> pool' ! (idx' - 1) < 252 \<and>
         d = uint (pool' ! (idx' - 1) mod 6) + 1 \<and> 1 \<le> d \<and> d \<le> 6"
    if "drawDie key prefix nonce pool idx = Some y" for y
    using drawDie_result [OF that] face_range unfolding draw_ok_def by blast
  then show ?thesis
    using drawDie_accept drawDie_reject face_range face_count by blast
qed

text \<open>
  The pool \<open>[255, 7]\<close>: the byte 255 is skipped, the byte 7 gives the face 2.
\<close>

theorem rejection_sampling_witness:
  "drawDie [] [] 0 [255, 7] 1 = Some (Inr (2, 0, [255, 7], 2)) \<and>
   drawDie [] [] 0 [255, 7] 0 = drawDie [] [] 0 [255, 7] 1 \<and>
   card {v :: byte. v < 252 \<and> uint (v mod 6) + 1 = 1} = 42 \<and>
   card {v :: byte. v < 252 \<and> uint (v mod 6) + 1 = 6} = 42"
proof -
  have "drawDie [] [] 0 [255, 7] 1 = Some (Inr (2, 0, [255, 7], 2))"
    using rejection_sampling [of 1 "[255, 7]" "[]" "[]" 0] by simp
  moreover have "drawDie [] [] 0 [255, 7] 0 = drawDie [] [] 0 [255, 7] 1"
    using rejection_sampling [of 0 "[255, 7]" "[]" "[]" 0] by simp
  moreover have "card {v :: byte. v < 252 \<and> uint (v mod 6) + 1 = 1} = 42"
    using rejection_sampling [of 0 "[]" "[]" "[]" 0, THEN conjunct2, THEN conjunct2,
        THEN conjunct2, THEN conjunct2, rule_format, of 0]
    by simp
  moreover have "card {v :: byte. v < 252 \<and> uint (v mod 6) + 1 = 6} = 42"
    using rejection_sampling [of 0 "[]" "[]" "[]" 0, THEN conjunct2, THEN conjunct2,
        THEN conjunct2, THEN conjunct2, rule_format, of 5]
    by simp
  ultimately show ?thesis by simp
qed

subsection \<open>C7: error taxonomy and the order of the checks\<close>

text \<open>
  Claim C7. A report whose players are not two or whose roll string has odd length fails
  with a structural error. \<open>Verify\<close> reports the first violation in the order: number of
  players, parity of the roll string, decoding of the server seed, commitment, decoding of
  the client seeds, comparison of the rolls; the decoding failures are encoding errors.
  Once every earlier stage passes, \<open>Verify\<close> is the comparison loop, and any error it
  returns is a roll mismatch.
\<close>

theorem Verify_first_violation:
  "(length (Players rep) \<noteq> 2 \<or> odd (length (Rolls rep)) \<longrightarrow>
      (\<exists>err. Verify rep = Some (Inl err) \<and> kind err = StructuralViolation)) \<and>
   (length (Players rep) \<noteq> 2 \<longrightarrow>
      Verify rep = Some (Inl NotTwoPlayers) \<and> kind NotTwoPlayers = StructuralViolation) \<and>
   (length (Players rep) = 2 \<and> odd (length (Rolls rep)) \<longrightarrow>
      Verify rep = Some (Inl OddRolls) \<and> kind OddRolls = StructuralViolation) \<and>
   (length (Players rep) = 2 \<and> even (length (Rolls rep)) \<and>
    hex_DecodeString (ServerSeed rep) = None \<longrightarrow>
      Verify rep = Some (Inl (NotValidHex ''serverSeed'')) \<and>
      kind (NotValidHex ''serverSeed'') = InvalidEncoding) \<and>
   (\<forall>srv. length (Players rep) = 2 \<and> even (length (Rolls rep)) \<and>
      hex_DecodeString (ServerSeed rep) = Some srv \<and> sha256Hex srv \<noteq> ServerSeedHash rep \<longrightarrow>
      Verify rep = Some (Inl ServerHashMismatch) \<and>
      kind ServerHashMismatch = CommitmentMismatch) \<and>
   (\<forall>srv. length (Players rep) = 2 \<and> even (length (Rolls rep)) \<and>
      hex_DecodeString (ServerSeed rep) = Some srv \<and> sha256Hex srv = ServerSeedHash rep \<and>
      (hex_DecodeString (ClientSeed (Players rep ! 0)) = None \<or>
       hex_DecodeString (ClientSeed (Players rep ! 1)) = None) \<longrightarrow>
      Verify rep = Some (Inl (NotValidHex ''clientSeed'')) \<and>
      kind (NotValidHex ''clientSeed'') = InvalidEncoding) \<and>
   (\<forall>srv combined. length (Players rep) = 2 \<and> even (length (Rolls rep)) \<and>
      hex_DecodeString (ServerSeed rep) = Some srv \<and> sha256Hex srv = ServerSeedHash rep \<and>
      combinedSeed (Players rep ! 0) (Players rep ! 1) = Inr combined \<longrightarrow>
      Verify rep = verifyRolls srv combined (Rolls rep) 0 0 \<and>
      (\<forall>err. Verify rep = Some (Inl err) \<longrightarrow> kind err = RollMismatchKind))"
proof -
  have 1: "length (Players rep) \<noteq> 2 \<longrightarrow>
      Verify rep = Some (Inl NotTwoPlayers) \<and> kind NotTwoPlayers = StructuralViolation"
    by (simp add: Verify_def)
  have 2: "length (Players rep) = 2 \<and> odd (length (Rolls rep)) \<longrightarrow>
      Verify rep = Some (Inl OddRolls) \<and> kind OddRolls = StructuralViolation"
    by (auto simp: Verify_def odd_iff_mod_2_eq_one)
  have 3: "length (Players rep) = 2 \<and> even (length (Rolls rep)) \<and>
      hex_DecodeString (ServerSeed rep) = None \<longrightarrow>
      Verify rep = Some (Inl (NotValidHex ''serverSeed'')) \<and>
      kind (NotValidHex ''serverSeed'') = InvalidEncoding"
    by (simp add: Verify_def decodeHex_def)
  have 4: "length (Players rep) = 2 \<and> even (length (Rolls rep)) \<and>
      hex_DecodeString (ServerSeed rep) = Some srv \<and> sha256Hex srv \<noteq> ServerSeedHash rep \<longrightarrow>
      Verify rep = Some (Inl ServerHashMismatch) \<and>
      kind ServerHashMismatch = CommitmentMismatch" for srv
    by (simp add: Verify_def decodeHex_def)
  have 5: "length (Players rep) = 2 \<and> even (length (Rolls rep)) \<and>
      hex_DecodeString (ServerSeed rep) = Some srv \<and> sha256Hex srv = ServerSeedHash rep \<and>
      (hex_DecodeString (ClientSeed (Players rep ! 0)) = None \<or>
       hex_DecodeString (ClientSeed (Players rep ! 1)) = None) \<longrightarrow>
      Verify rep = Some (Inl (NotValidHex ''clientSeed'')) \<and>
      kind (NotValidHex ''clientSeed'') = InvalidEncoding" for srv
  proof (intro impI, elim conjE)
    assume a: "length (Players rep) = 2" "even (length (Rolls rep))"
      "hex_DecodeString (ServerSeed rep) = Some srv" "sha256Hex srv = ServerSeedHash rep"
      "hex_DecodeString (ClientSeed (Players rep ! 0)) = None \<or>
       hex_DecodeString (ClientSeed (Players rep ! 1)) = None"
    then have "combinedSeed (Players rep ! 0) (Players rep ! 1) = Inl (NotValidHex ''clientSeed'')"
      by (simp add: combinedSeed_Inl_iff)
    with a show "Verify rep = Some (Inl (NotValidHex ''clientSeed'')) \<and>
      kind (NotValidHex ''clientSeed'') = InvalidEncoding"
      by (simp add: Verify_def decodeHex_def)
  qed
  have 6: "length (Players rep) = 2 \<and> even (length (Rolls rep)) \<and>
      hex_DecodeString (ServerSeed rep) = Some srv \<and> sha256Hex srv = ServerSeedHash rep \<and>
      combinedSeed (Players rep ! 0) (Players rep ! 1) = Inr combined \<longrightarrow>
      Verify rep = verifyRolls srv combined (Rolls rep) 0 0 \<and>
      (\<forall>err. Verify rep = Some (Inl err) \<longrightarrow> kind err = RollMismatchKind)" for srv combined
  proof (intro impI, elim conjE)
    assume a: "length (Players rep) = 2" "even (length (Rolls rep))"
      "hex_DecodeString (ServerSeed rep) = Some srv" "sha256Hex srv = ServerSeedHash rep"
      "combinedSeed (Players rep ! 0) (Players rep ! 1) = Inr combined"
    have V: "Verify rep = verifyRolls srv combined (Rolls rep) 0 0"
      using a by (rule Verify_proceeds)
    moreover have "kind err = RollMismatchKind" if "Verify rep = Some (Inl err)" for err
      using verifyRolls_errors [OF even_split [OF a(2)], of srv combined 0 err] that V by auto
    ultimately show "Verify rep = verifyRolls srv combined (Rolls rep) 0 0 \<and>
      (\<forall>err. Verify rep = Some (Inl err) \<longrightarrow> kind err = RollMismatchKind)"
      by blast
  qed
  have 0: "length (Players rep) \<noteq> 2 \<or> odd (length (Rolls rep)) \<longrightarrow>
      (\<exists>err. Verify rep = Some (Inl err) \<and> kind err = StructuralViolation)"
    using 1 2 by blast
  show ?thesis
    using 0 1 2 3 4 5 6 by blast
qed

text \<open>
  Reports with several violations at once: each fails with the earliest one.
\<close>

theorem Verify_first_violation_witness:
  "Verify \<lparr>GameID = ''w1'', ServerSeed = ''zz'', ServerSeedHash = ''00'', Rolls = ''1'',
           Players = []\<rparr> = Some (Inl NotTwoPlayers) \<and>
   Verify \<lparr>GameID = ''w2'', ServerSeed = ''zz'', ServerSeedHash = ''00'', Rolls = ''1'',
           Players = [player_a, player_b]\<rparr> = Some (Inl OddRolls) \<and>
   Verify \<lparr>GameID = ''w3'', ServerSeed = ''zz'', ServerSeedHash = ''00'', Rolls = ''11'',
           Players = [player_a\<lparr>ClientSeed := ''xyz''\<rparr>, player_b]\<rparr> =
     Some (Inl (NotValidHex ''serverSeed'')) \<and>
   Verify (example_report\<lparr>ServerSeedHash := ''00'',
             Players := [player_a\<lparr>ClientSeed := ''xyz''\<rparr>, player_b]\<rparr>) =
     Some (Inl ServerHashMismatch) \<and>
   Verify (example_report\<lparr>Rolls := ''77'',
             Players := [player_a, player_b\<lparr>ClientSeed := ''xyz''\<rparr>]\<rparr>) =
     Some (Inl (NotValidHex ''clientSeed'')) \<and>
   Verify example_report = verifyRolls example_seed example_combined ''2122'' 0 0"
proof -
  have 1: "Verify \<lparr>GameID = ''w1'', ServerSeed = ''zz'', ServerSeedHash = ''00'', Rolls = ''1'',
           Players = []\<rparr> = Some (Inl NotTwoPlayers)"
    using Verify_first_violation [of "\<lparr>GameID = ''w1'', ServerSeed = ''zz'',
      ServerSeedHash = ''00'', Rolls = ''1'', Players = []\<rparr>"]
    by simp
  have 2: "Verify \<lparr>GameID = ''w2'', ServerSeed = ''zz'', ServerSeedHash = ''00'', Rolls = ''1'',
           Players = [player_a, player_b]\<rparr> = Some (Inl OddRolls)"
    using Verify_first_violation [of "\<lparr>GameID = ''w2'', ServerSeed = ''zz'',
      ServerSeedHash = ''00'', Rolls = ''1'', Players = [player_a, player_b]\<rparr>"]
    by simp
  have 3: "Verify \<lparr>GameID = ''w3'', ServerSeed = ''zz'', ServerSeedHash = ''00'', Rolls = ''11'',
           Players = [player_a\<lparr>ClientSeed := ''xyz''\<rparr>, player_b]\<rparr> =
     Some (Inl (NotValidHex ''serverSeed''))"
    using Verify_first_violation [of "\<lparr>GameID = ''w3'', ServerSeed = ''zz'',
      ServerSeedHash = ''00'', Rolls = ''11'',
      Players = [player_a\<lparr>ClientSeed := ''xyz''\<rparr>, player_b]\<rparr>"]
    by (simp add: fromHexChar_def)
  have d: "hex_DecodeString (ServerSeed example_report) = Some example_seed"
    using example_valid(3) by (simp add: decodeHex_Inr_iff)
  have h: "sha256Hex example_seed \<noteq> ''00''"
    using length_sha256Hex [of example_seed] by auto
  have 4: "Verify (example_report\<lparr>ServerSeedHash := ''00'',
             Players := [player_a\<lparr>ClientSeed := ''xyz''\<rparr>, player_b]\<rparr>) =
     Some (Inl ServerHashMismatch)"
    using Verify_first_violation [of "example_report\<lparr>ServerSeedHash := ''00'',
             Players := [player_a\<lparr>ClientSeed := ''xyz''\<rparr>, player_b]\<rparr>"] d h example_valid(2)
    by simp
  have c: "hex_DecodeString (ClientSeed (player_b\<lparr>ClientSeed := ''xyz''\<rparr>)) = None"
    by (simp add: fromHexChar_def)
  have 5: "Verify (example_report\<lparr>Rolls := ''77'',
             Players := [player_a, player_b\<lparr>ClientSeed := ''xyz''\<rparr>]\<rparr>) =
     Some (Inl (NotValidHex ''clientSeed''))"
    using Verify_first_violation [of "example_report\<lparr>Rolls := ''77'',
             Players := [player_a, player_b\<lparr>ClientSeed := ''xyz''\<rparr>]\<rparr>"] d c example_valid(4)
    by simp
  have 6: "Verify example_report = verifyRolls example_seed example_combined ''2122'' 0 0"
    using Verify_first_violation [of example_report] d example_valid
    by (simp add: example_report_def)
  show ?thesis
    using 1 2 3 4 5 6 by simp
qed

subsection \<open>C8: the source field is not read\<close>

text \<open>
  Claim C8. Two reports that differ at most in the \<open>source\<close> fields of their players
  have the same outcome of \<open>Verify\<close>.
\<close>

theorem Verify_ignores_source:
  assumes "sameExceptSource r r'"
  shows "Verify r = Verify r'"
proof -
  have f: "ServerSeed r = ServerSeed r'" "ServerSeedHash r = ServerSeedHash r'" "Rolls r = Rolls r'"
    and u: "map UID (Players r) = map UID (Players r')"
    and c: "map ClientSeed (Players r) = map ClientSeed (Players r')"
    using assms by (simp_all add: sameExceptSource_def)
  have len: "length (Players r) = length (Players r')"
    using u by (rule map_eq_imp_length_eq)
  show ?thesis
  proof (cases "length (Players r) = 2")
    case False
    with len show ?thesis by (simp add: Verify_def)
  next
    case True
    then have "0 < length (Players r)" "1 < length (Players r)" by simp_all
    then have "UID (Players r ! 0) = UID (Players r' ! 0)"
      and "ClientSeed (Players r ! 0) = ClientSeed (Players r' ! 0)"
      and "UID (Players r ! 1) = UID (Players r' ! 1)"
      and "ClientSeed (Players r ! 1) = ClientSeed (Players r' ! 1)"
      using u c len by (metis nth_map)+
    then have cs: "combinedSeed (Players r ! 0) (Players r ! 1) =
        combinedSeed (Players r' ! 0) (Players r' ! 1)"
      by (rule combinedSeed_fields)
    show ?thesis
      unfolding Verify_def f len cs by (rule refl)
  qed
qed

text \<open>
  The worked report with both source fields changed.
\<close>

theorem Verify_ignores_source_witness:
  "sameExceptSource example_report
     (example_report\<lparr>Players := [player_a\<lparr>Source := ''fallback''\<rparr>, player_b\<lparr>Source := ''?''\<rparr>]\<rparr>) \<and>
   Verify (example_report\<lparr>Players := [player_a\<lparr>Source := ''fallback''\<rparr>, player_b\<lparr>Source := ''?''\<rparr>]\<rparr>)
     = Verify example_report"
proof -
  have s: "sameExceptSource example_report
     (example_report\<lparr>Players := [player_a\<lparr>Source := ''fallback''\<rparr>, player_b\<lparr>Source := ''?''\<rparr>]\<rparr>)"
    by (simp add: sameExceptSource_def example_report_def)
  from Verify_ignores_source [OF s] s show ?thesis by simp
qed

subsection \<open>C10: seed lengths are not enforced\<close>



end
